theory Spec2Isabelle
  imports Main "HOL-Library.Word"
begin

section \<open>Data model of the session protocol engine (src/src/session.cpp)\<close>

text \<open>
  The members of class \<open>Session\<close> are the fields of the record \<open>Session\<close> below. C++
  member names end in an underscore (\<open>state_\<close>, \<open>curImgIdx_\<close>, \<open>handleEvents_\<close>); Isabelle
  rejects names that end in an underscore, so the underscore is dropped and nothing else
  of the name is changed.

  \<^item> \<open>uint64_t\<close> is \<open>64 word\<close>: \<open>++\<close> wraps around, comparisons are unsigned.
  \<^item> \<open>int\<close> values (viewport sizes, signals) are \<open>int\<close>; they stay far inside the 32-bit
    range because sizes are clamped to 64..4096 before any arithmetic. The one place
    where an \<open>int\<close> could run away (the decrementing loops of
    \<open>sendViewportToCompressor_\<close>) models the signed overflow as an error.
  \<^item> \<open>steady_clock::time_point\<close> is an \<open>int\<close> counting nanoseconds, the tick of
    \<open>steady_clock\<close>; every function that reads the clock takes the reading \<open>now\<close> as an
    argument, and all the readings within one call are that one value.
  \<^item> The handles to collaborators (\<open>eventHandler_\<close>, \<open>rootWidget_\<close>, \<open>imageCompressor_\<close>,
    \<open>downloadManager_\<close>) and \<open>allowPNG_\<close>, which is only passed on to them, are not
    fields: calls to the collaborators are effects. \<open>browser_\<close> is kept as the flag
    "the handle is not null".
  \<^item> The destructor is not modelled: the operations are those of a live session object.
  \<^item> Everything a function does to a collaborator (HTTP response, browser handle,
    compressor, widget tree, log) is returned as a list of \<open>effect\<close>s, in program order.
  \<^item> A failed \<open>REQUIRE\<close> aborts the process: the function returns \<open>Inl RequireFailed\<close>.
\<close>

type_synonym uint64 = "64 word"
type_synonym time_point = int
type_synonym CompletedDownload = string

datatype SessionState = Pending | Open | Closing | Closed

datatype error = RequireFailed | SignedOverflow

text \<open>
  Modelled from the spec: class \<open>Timeout\<close> (timeout.hpp is not among the sources). The
  spec calls it a reschedulable one-shot timer: \<open>Timeout::create(ms)\<close> makes an idle
  timer with a fixed delay, \<open>set\<close> arms it to fire \<open>ms\<close> milliseconds after the call and
  \<open>clear(false)\<close> disarms it without running the callback. The callback is fixed by the
  call site, so the model keeps only the delay and the deadline.
\<close>

record Timeout =
  delayMs :: int
  deadline :: "time_point option"

definition Timeout_create :: "int \<Rightarrow> Timeout" where
  "Timeout_create ms = \<lparr>delayMs = ms, deadline = None\<rparr>"

definition Timeout_clear :: "Timeout \<Rightarrow> Timeout" where
  "Timeout_clear t = t\<lparr>deadline := None\<rparr>"

definition Timeout_set :: "time_point \<Rightarrow> Timeout \<Rightarrow> Timeout" where
  "Timeout_set now t = t\<lparr>deadline := Some (now + delayMs t * 1000000)\<rparr>"

text \<open>
  The signalling constants \<open>WidthSignalModulus\<close>, \<open>HeightSignalModulus\<close>,
  \<open>WidthSignalNewIframe\<close>, \<open>WidthSignalNoNewIframe\<close>, \<open>NormalCursor\<close> and
  \<open>CursorTypeCount\<close> are declared in headers that are not among the sources; the
  functions take them as a parameter.
\<close>

record SignalConsts =
  WidthSignalModulus :: int
  HeightSignalModulus :: int
  WidthSignalNewIframe :: int
  WidthSignalNoNewIframe :: int
  NormalCursor :: int
  CursorTypeCount :: int

text \<open>
  The one-shot producers pushed on \<open>iframeQueue_\<close>: the three lambdas of
  \<open>OnBeforePopup\<close>, \<open>onClipboardButtonPressed\<close> and \<open>onDownloadCompleted\<close>, each with what
  it captures.
\<close>

datatype Iframe =
    PopupIframe uint64
  | ClipboardIframe
  | DownloadIframe CompletedDownload

datatype HTML =
    PreMainHTML uint64
  | MainHTML uint64 uint64
  | PrePrevHTML uint64
  | PrevHTML uint64
  | NextHTML uint64
  | PopupIframeHTML uint64
  | ClipboardIframeHTML
  | DownloadIframeHTML uint64 uint64 CompletedDownload

datatype effect =
    SendTextResponse nat string
  | SendHTMLResponse nat HTML
  | SendCompressedImageNow
  | SendCompressedImageWait
  | ServeDownload CompletedDownload
  | CompressorFlush
  | CompressorUpdateImage int int
  | CloseBrowser
  | GoBack
  | Reload
  | GoForward
  | WidgetInputEvent string
  | WidgetSetViewport int int
  | WidgetLoseFocus
  | WidgetMouseLeave
  | WidgetSetBrowser bool
  | SetSecurityStatus
  | PostSessionClosed uint64
  | WarningLog string

record Session =
  sessionId :: uint64
  isPopup :: bool
  prePrevVisited :: bool
  preMainVisited :: bool
  prevNextClicked :: bool
  curMainIdx :: uint64
  curImgIdx :: uint64
  curEventIdx :: uint64
  curDownloadIdx :: uint64
  state :: SessionState
  closeOnOpen :: bool
  inactivityTimeoutLong :: Timeout
  inactivityTimeoutShort :: Timeout
  lastSecurityStatusUpdateTime :: time_point
  lastNavigateOperationTime :: time_point
  browser :: bool
  paddedRootViewport :: "int \<times> int"
  rootViewport :: "int \<times> int"
  widthSignal :: int
  heightSignal :: int
  iframeQueue :: "Iframe list"
  downloads :: "uint64 \<rightharpoonup> (CompletedDownload \<times> Timeout)"

type_synonym result = "error + (Session \<times> effect list)"

text \<open>
  A request after \<open>regex_match\<close> and \<open>parseString\<close>: the seven path regexes differ in the
  literal segment that follows the leading \<open>/[0-9]+/\<close>, so a path matches at most one of
  them. A capture is \<open>None\<close> where \<open>parseString\<close> fails on the matched digits (a number
  outside the range of its type); the last argument of \<open>ImagePath\<close> is \<open>match[7]\<close>, the
  event batch.
\<close>

datatype RequestPath =
    ImagePath "uint64 option" "uint64 option" "int option" "int option" "int option"
      "uint64 option" string
  | IframePath "uint64 option"
  | DownloadPath "uint64 option"
  | ClosePath "uint64 option"
  | MainPath
  | PrevPath
  | NextPath
  | NoMatch

record HTTPRequest =
  reqMethod :: string
  reqPath :: RequestPath

subsection \<open>Construction (Session::Session, lines 339-395)\<close>

definition Session_new :: "SignalConsts \<Rightarrow> time_point \<Rightarrow> uint64 \<Rightarrow> bool \<Rightarrow> Session" where
  "Session_new g now sid popup =
     \<lparr>sessionId = sid, isPopup = popup,
      prePrevVisited = False, preMainVisited = False, prevNextClicked = False,
      curMainIdx = 0, curImgIdx = 0, curEventIdx = 0, curDownloadIdx = 0,
      state = Pending, closeOnOpen = False,
      inactivityTimeoutLong = Timeout_create 30000,
      inactivityTimeoutShort = Timeout_create 4000,
      lastSecurityStatusUpdateTime = now, lastNavigateOperationTime = now,
      browser = False,
      paddedRootViewport =
        (800 + WidthSignalModulus g - 1, 600 + HeightSignalModulus g - 1),
      rootViewport = (800, 600),
      widthSignal = WidthSignalNoNewIframe g, heightSignal = NormalCursor g,
      iframeQueue = [], downloads = Map.empty\<rparr>"

text \<open>\<open>duration_cast<milliseconds>(d).count()\<close> on a nanosecond duration: truncation towards zero.\<close>

definition duration_ms :: "int \<Rightarrow> int" where
  "duration_ms d = sgn d * (\<bar>d\<bar> div 1000000)"

subsection \<open>Result plumbing\<close>

definition andThen :: "result \<Rightarrow> (Session \<Rightarrow> result) \<Rightarrow> result" where
  "andThen r f =
     (case r of
        Inl e \<Rightarrow> Inl e
      | Inr (s, es) \<Rightarrow>
          (case f s of Inl e \<Rightarrow> Inl e | Inr (s', es') \<Rightarrow> Inr (s', es @ es')))"

definition emit :: "effect list \<Rightarrow> result \<Rightarrow> result" where
  "emit es r = (case r of Inl e \<Rightarrow> Inl e | Inr (s, es') \<Rightarrow> Inr (s, es @ es'))"

subsection \<open>Session::updateInactivityTimeout_ (lines 767-791)\<close>

definition updateInactivityTimeout :: "time_point \<Rightarrow> bool \<Rightarrow> Session \<Rightarrow> Session" where
  "updateInactivityTimeout now shortened s =
     (let s1 = s\<lparr>inactivityTimeoutLong := Timeout_clear (inactivityTimeoutLong s),
                 inactivityTimeoutShort := Timeout_clear (inactivityTimeoutShort s)\<rparr>
      in if state s1 = Pending \<or> state s1 = Open then
           (if shortened
            then s1\<lparr>inactivityTimeoutShort := Timeout_set now (inactivityTimeoutShort s1)\<rparr>
            else s1\<lparr>inactivityTimeoutLong := Timeout_set now (inactivityTimeoutLong s1)\<rparr>)
         else s1)"

subsection \<open>Session::close (lines 408-426)\<close>

definition close :: "Session \<Rightarrow> result" where
  "close s =
     (if state s = Open then
        (if browser s
         then Inr (s\<lparr>state := Closing\<rparr>, [CloseBrowser, CompressorFlush])
         else Inl RequireFailed)
      else if state s = Pending then Inr (s\<lparr>closeOnOpen := True\<rparr>, [])
      else Inr (s, []))"

subsection \<open>Browser life span callbacks (Session::Client, lines 134-162)\<close>

definition OnAfterCreated :: "Session \<Rightarrow> result" where
  "OnAfterCreated s =
     (if state s \<noteq> Pending then Inl RequireFailed
      else
        let s1 = s\<lparr>browser := True, state := Open\<rparr>
        in emit [WidgetSetBrowser True]
             (if closeOnOpen s1 then close s1 else Inr (s1, [])))"

definition OnBeforeClose :: "time_point \<Rightarrow> Session \<Rightarrow> result" where
  "OnBeforeClose now s =
     (if state s = Open \<or> state s = Closing then
        Inr (updateInactivityTimeout now False (s\<lparr>state := Closed, browser := False\<rparr>),
             [WidgetSetBrowser False, CompressorFlush, PostSessionClosed (sessionId s)])
      else Inl RequireFailed)"

subsection \<open>Session::afterConstruct_ (lines 735-765)\<close>

text \<open>\<open>createOk\<close> is what \<open>CefBrowserHost::CreateBrowser\<close> returns.\<close>

definition afterConstruct :: "time_point \<Rightarrow> bool \<Rightarrow> Session \<Rightarrow> result" where
  "afterConstruct now createOk s =
     (let vp = [WidgetSetViewport (fst (rootViewport s)) (snd (rootViewport s))]
      in if \<not> isPopup s \<and> \<not> createOk
         then Inr (updateInactivityTimeout now False (s\<lparr>state := Closed\<rparr>),
                   vp @ [PostSessionClosed (sessionId s)])
         else Inr (updateInactivityTimeout now False s, vp))"

subsection \<open>Session::updateSecurityStatus_ (lines 793-824)\<close>

definition updateSecurityStatus :: "time_point \<Rightarrow> Session \<Rightarrow> Session \<times> effect list" where
  "updateSecurityStatus now s = (s\<lparr>lastSecurityStatusUpdateTime := now\<rparr>, [SetSecurityStatus])"

subsection \<open>Session::navigate_ (lines 920-943)\<close>

definition navigate :: "time_point \<Rightarrow> int \<Rightarrow> Session \<Rightarrow> result" where
  "navigate now direction s =
     (if \<not> (-1 \<le> direction \<and> direction \<le> 1) then Inl RequireFailed
      else if duration_ms (now - lastNavigateOperationTime s) \<le> 200 then Inr (s, [])
      else Inr (s\<lparr>lastNavigateOperationTime := now\<rparr>,
                if browser s then
                  (if direction = -1 then [GoBack] else []) @
                  (if direction = 0 then [Reload] else []) @
                  (if direction = 1 then [GoForward] else [])
                else []))"

subsection \<open>Session::updateRootViewportSize_ (lines 826-840)\<close>

definition updateRootViewportSize ::
  "SignalConsts \<Rightarrow> int \<Rightarrow> int \<Rightarrow> Session \<Rightarrow> Session \<times> effect list" where
  "updateRootViewportSize g width0 height0 s =
     (let width = max (min width0 4096) 64;
          height = max (min height0 4096) 64
      in if fst (rootViewport s) \<noteq> width \<or> snd (rootViewport s) \<noteq> height then
           (s\<lparr>paddedRootViewport :=
                 (width + WidthSignalModulus g - 1, height + HeightSignalModulus g - 1),
               rootViewport := (width, height)\<rparr>,
            [WidgetSetViewport width height])
         else (s, []))"

subsection \<open>Session::sendViewportToCompressor_ (lines 842-859)\<close>

text \<open>The C++ operator \<open>%\<close> on \<open>int\<close>: the remainder of the division that truncates towards zero.\<close>

definition c_rem :: "int \<Rightarrow> int \<Rightarrow> int" where
  "c_rem a b = sgn a * (\<bar>a\<bar> mod \<bar>b\<bar>)"

definition INT_MIN :: int where
  "INT_MIN = - 2147483648"

text \<open>
  \<open>while(width % Modulus != signal) --width;\<close>. Decrementing \<open>INT_MIN\<close> is a signed
  overflow, modelled as the error \<open>SignedOverflow\<close>; this bounds the loop.
\<close>

function signalLoop :: "int \<Rightarrow> int \<Rightarrow> int \<Rightarrow> error + int" where
  "signalLoop modulus signal width =
     (if c_rem width modulus \<noteq> signal then
        (if width \<le> INT_MIN then Inl SignedOverflow
         else signalLoop modulus signal (width - 1))
      else Inr width)"
  by pat_completeness auto
termination
  by (relation "measure (\<lambda>(modulus, signal, width). nat (width - INT_MIN))") auto

declare signalLoop.simps [simp del]

definition sendViewportToCompressor :: "SignalConsts \<Rightarrow> Session \<Rightarrow> result" where
  "sendViewportToCompressor g s =
     (if \<not> (0 \<le> widthSignal s \<and> widthSignal s < WidthSignalModulus g) then Inl RequireFailed
      else if \<not> (0 \<le> heightSignal s \<and> heightSignal s < HeightSignalModulus g)
      then Inl RequireFailed
      else
        (case signalLoop (WidthSignalModulus g) (widthSignal s) (fst (paddedRootViewport s)) of
           Inl e \<Rightarrow> Inl e
         | Inr width \<Rightarrow>
            (case signalLoop (HeightSignalModulus g) (heightSignal s)
                    (snd (paddedRootViewport s)) of
               Inl e \<Rightarrow> Inl e
             | Inr height \<Rightarrow> Inr (s, [CompressorUpdateImage width height]))))"

subsection \<open>Signals and the iframe queue (lines 901-918)\<close>

definition setWidthSignal :: "SignalConsts \<Rightarrow> int \<Rightarrow> Session \<Rightarrow> result" where
  "setWidthSignal g newWidthSignal s =
     (if newWidthSignal \<noteq> widthSignal s
      then sendViewportToCompressor g (s\<lparr>widthSignal := newWidthSignal\<rparr>)
      else Inr (s, []))"

definition setHeightSignal :: "SignalConsts \<Rightarrow> int \<Rightarrow> Session \<Rightarrow> result" where
  "setHeightSignal g newHeightSignal s =
     (if newHeightSignal \<noteq> heightSignal s
      then sendViewportToCompressor g (s\<lparr>heightSignal := newHeightSignal\<rparr>)
      else Inr (s, []))"

definition addIframe :: "SignalConsts \<Rightarrow> Iframe \<Rightarrow> Session \<Rightarrow> result" where
  "addIframe g iframe s =
     setWidthSignal g (WidthSignalNewIframe g) (s\<lparr>iframeQueue := iframeQueue s @ [iframe]\<rparr>)"

subsection \<open>Session::handleEvents_ (lines 861-899)\<close>

text \<open>
  The two nested loops of \<open>handleEvents_\<close>, one character of the batch at a time:
  \<open>tok\<close> is the text between \<open>eventBegin\<close> and \<open>eventEnd\<close>, \<open>eventIdx\<close> is the local
  sequence number and \<open>cur\<close> is \<open>curEventIdx_\<close>. The function returns the calls of
  \<open>processEvent\<close> it makes, each with the value of \<open>eventIdx\<close> at the call, and the final
  \<open>curEventIdx_\<close>. Reaching the end of the batch returns, dropping an unfinished token.
\<close>

fun handleEvents_loop ::
  "uint64 \<Rightarrow> uint64 \<Rightarrow> string \<Rightarrow> string \<Rightarrow> (uint64 \<times> string) list \<times> uint64" where
  "handleEvents_loop eventIdx cur tok [] = ([], cur)"
| "handleEvents_loop eventIdx cur tok (c # cs) =
     (if c = CHR ''/'' then
        (if eventIdx = cur then
           (let r = handleEvents_loop (eventIdx + 1) (eventIdx + 1) [] cs
            in ((eventIdx, tok @ [c]) # fst r, snd r))
         else handleEvents_loop (eventIdx + 1) cur [] cs)
      else handleEvents_loop eventIdx cur (tok @ [c]) cs)"

text \<open>Lines 866-870 followed by the loop: the calls of \<open>processEvent\<close> and the new \<open>curEventIdx_\<close>.\<close>

definition handleEvents_calls ::
  "uint64 \<Rightarrow> string \<Rightarrow> uint64 \<Rightarrow> (uint64 \<times> string) list \<times> uint64" where
  "handleEvents_calls startIdx batch cur =
     handleEvents_loop startIdx (if startIdx > cur then startIdx else cur) [] batch"

text \<open>
  Modelled from the spec: \<open>processEvent\<close> (event.cpp is not among the sources). It parses
  one token; when the token parses it dispatches the input event to the widget tree and
  returns true, otherwise it returns false and dispatches nothing. The parser is the
  parameter \<open>parses\<close>.
\<close>

definition processEvent :: "(string \<Rightarrow> bool) \<Rightarrow> string \<Rightarrow> bool \<times> effect list" where
  "processEvent parses tok = (if parses tok then (True, [WidgetInputEvent tok]) else (False, []))"

definition eventEffects :: "(string \<Rightarrow> bool) \<Rightarrow> string \<Rightarrow> effect list" where
  "eventEffects parses tok =
     (let r = processEvent parses tok
      in if \<not> fst r then snd r @ [WarningLog (''Could not parse event '' @ tok)] else snd r)"

definition handleEvents ::
  "(string \<Rightarrow> bool) \<Rightarrow> uint64 \<Rightarrow> string \<Rightarrow> Session \<Rightarrow> Session \<times> effect list" where
  "handleEvents parses startIdx batch s =
     (let r = handleEvents_calls startIdx batch (curEventIdx s)
      in (s\<lparr>curEventIdx := snd r\<rparr>,
          (if startIdx > curEventIdx s then [WarningLog ''events skipped''] else []) @
          concat (map (\<lambda>(i, tok). eventEffects parses tok) (fst r))))"

subsection \<open>Invoking a queued iframe producer (lambdas at lines 123-129, 685-687, 709-732)\<close>

fun runIframe :: "time_point \<Rightarrow> Iframe \<Rightarrow> Session \<Rightarrow> result" where
  "runIframe now (PopupIframe popupSessionID) s =
     Inr (s, [SendHTMLResponse 200 (PopupIframeHTML popupSessionID)])"
| "runIframe now ClipboardIframe s = Inr (s, [SendHTMLResponse 200 ClipboardIframeHTML])"
| "runIframe now (DownloadIframe file) s =
     (let downloadIdx = curDownloadIdx s + 1;
          s1 = s\<lparr>curDownloadIdx := downloadIdx\<rparr>;
          timeout = Timeout_create 10000
      in if downloads s1 downloadIdx \<noteq> None then Inl RequireFailed
         else Inr (s1\<lparr>downloads := (downloads s1)(downloadIdx \<mapsto> (file, Timeout_set now timeout))\<rparr>,
                   [SendHTMLResponse 200 (DownloadIframeHTML (sessionId s) downloadIdx file)]))"

subsection \<open>Session::handleHTTPRequest (lines 428-596)\<close>

definition outdatedRequest :: effect where
  "outdatedRequest = SendTextResponse 400 ''ERROR: Outdated request''"

definition invalidRequest :: effect where
  "invalidRequest = SendTextResponse 400 ''ERROR: Invalid request URI or method''"

text \<open>The image endpoint, lines 457-472.\<close>

definition handleImage ::
  "SignalConsts \<Rightarrow> (string \<Rightarrow> bool) \<Rightarrow> time_point \<Rightarrow> uint64 \<Rightarrow> uint64 \<Rightarrow> int \<Rightarrow> int \<Rightarrow> int \<Rightarrow>
   uint64 \<Rightarrow> string \<Rightarrow> Session \<Rightarrow> result" where
  "handleImage g parses now mainIdx imgIdx immediate width height startEventIdx batch s =
     (if mainIdx \<noteq> curMainIdx s \<or> imgIdx \<le> curImgIdx s then Inr (s, [outdatedRequest])
      else
        let s1 = updateInactivityTimeout now False s;
            r2 = handleEvents parses startEventIdx batch s1;
            s3 = (fst r2)\<lparr>curImgIdx := imgIdx\<rparr>;
            r4 = updateRootViewportSize g width height s3
        in Inr (fst r4,
                snd r2 @ snd r4 @
                [if immediate \<noteq> 0 then SendCompressedImageNow else SendCompressedImageWait]))"

text \<open>The iframe endpoint, lines 479-496.\<close>

definition handleIframe :: "SignalConsts \<Rightarrow> time_point \<Rightarrow> uint64 \<Rightarrow> Session \<Rightarrow> result" where
  "handleIframe g now mainIdx s =
     (if mainIdx \<noteq> curMainIdx s then Inr (s, [outdatedRequest])
      else
        (case iframeQueue s of
           [] \<Rightarrow> Inr (s, [SendTextResponse 200 ''OK''])
         | iframe # rest \<Rightarrow>
             (let s1 = updateInactivityTimeout now False s;
                  s2 = s1\<lparr>iframeQueue := rest\<rparr>
              in andThen
                   (if iframeQueue s2 = [] then setWidthSignal g (WidthSignalNoNewIframe g) s2
                    else Inr (s2, []))
                   (runIframe now iframe))))"

text \<open>The download endpoint, lines 503-510.\<close>

definition handleDownload :: "uint64 \<Rightarrow> Session \<Rightarrow> result" where
  "handleDownload downloadIdx s =
     (case downloads s downloadIdx of
        None \<Rightarrow> Inr (s, [SendTextResponse 400 ''ERROR: Outdated download index''])
      | Some entry \<Rightarrow> Inr (s, [ServeDownload (fst entry)]))"

text \<open>The close endpoint, lines 517-531.\<close>

definition handleClose :: "time_point \<Rightarrow> uint64 \<Rightarrow> Session \<Rightarrow> result" where
  "handleClose now mainIdx s =
     (if mainIdx \<noteq> curMainIdx s then Inr (s, [outdatedRequest])
      else
        Inr (updateInactivityTimeout now True
               (s\<lparr>curMainIdx := curMainIdx s + 1, curImgIdx := 0, curEventIdx := 0\<rparr>),
             [SendTextResponse 200 ''OK'']))"

text \<open>The main page, lines 536-563.\<close>

definition handleMain :: "time_point \<Rightarrow> Session \<Rightarrow> result" where
  "handleMain now s =
     (let s1 = updateInactivityTimeout now False s
      in if preMainVisited s1 then
           (let s2 = s1\<lparr>curMainIdx := curMainIdx s1 + 1\<rparr>
            in andThen
                 (if curMainIdx s2 > 1 \<and> \<not> prevNextClicked s2 then navigate now 0 s2
                  else Inr (s2, []))
                 (\<lambda>s3. Inr (s3\<lparr>prevNextClicked := False, curImgIdx := 0, curEventIdx := 0\<rparr>,
                           [WidgetLoseFocus, WidgetMouseLeave,
                            SendHTMLResponse 200 (MainHTML (sessionId s3) (curMainIdx s3))])))
         else Inr (s1\<lparr>preMainVisited := True\<rparr>,
                   [SendHTMLResponse 200 (PreMainHTML (sessionId s1))]))"

text \<open>The prev page, lines 567-580, and the next page, lines 584-592.\<close>

definition handlePrev :: "time_point \<Rightarrow> Session \<Rightarrow> result" where
  "handlePrev now s =
     (let s1 = updateInactivityTimeout now False s
      in andThen
           (if curMainIdx s1 > 0 \<and> \<not> prevNextClicked s1
            then navigate now (-1) (s1\<lparr>prevNextClicked := True\<rparr>)
            else Inr (s1, []))
           (\<lambda>s2. if prePrevVisited s2
                 then Inr (s2, [SendHTMLResponse 200 (PrevHTML (sessionId s2))])
                 else Inr (s2\<lparr>prePrevVisited := True\<rparr>,
                           [SendHTMLResponse 200 (PrePrevHTML (sessionId s2))])))"

definition handleNext :: "time_point \<Rightarrow> Session \<Rightarrow> result" where
  "handleNext now s =
     (let s1 = updateInactivityTimeout now False s
      in andThen
           (if curMainIdx s1 > 0 \<and> \<not> prevNextClicked s1
            then navigate now 1 (s1\<lparr>prevNextClicked := True\<rparr>)
            else Inr (s1, []))
           (\<lambda>s2. Inr (s2, [SendHTMLResponse 200 (NextHTML (sessionId s2))])))"

text \<open>
  The chain of \<open>if(method == "GET" && regex_match(...))\<close> blocks, lines 448-595. A block
  whose capture does not parse falls through; no later regex matches the same path, so
  the request ends at the final rejection.
\<close>

fun dispatch ::
  "SignalConsts \<Rightarrow> (string \<Rightarrow> bool) \<Rightarrow> time_point \<Rightarrow> RequestPath \<Rightarrow> Session \<Rightarrow> result" where
  "dispatch g parses now
     (ImagePath (Some mainIdx) (Some imgIdx) (Some immediate) (Some width) (Some height)
        (Some startEventIdx) batch) s =
     handleImage g parses now mainIdx imgIdx immediate width height startEventIdx batch s"
| "dispatch g parses now (IframePath (Some mainIdx)) s = handleIframe g now mainIdx s"
| "dispatch g parses now (DownloadPath (Some downloadIdx)) s = handleDownload downloadIdx s"
| "dispatch g parses now (ClosePath (Some mainIdx)) s = handleClose now mainIdx s"
| "dispatch g parses now MainPath s = handleMain now s"
| "dispatch g parses now PrevPath s = handlePrev now s"
| "dispatch g parses now NextPath s = handleNext now s"
| "dispatch g parses now p s = Inr (s, [invalidRequest])"

text \<open>Lines 436-442: the security status is refreshed once a second has passed since the last refresh.\<close>

definition refreshSecurityStatus :: "time_point \<Rightarrow> Session \<Rightarrow> Session \<times> effect list" where
  "refreshSecurityStatus now s =
     (if duration_ms (now - lastSecurityStatusUpdateTime s) \<ge> 1000
      then updateSecurityStatus now s else (s, []))"

definition handleHTTPRequest ::
  "SignalConsts \<Rightarrow> (string \<Rightarrow> bool) \<Rightarrow> time_point \<Rightarrow> HTTPRequest \<Rightarrow> Session \<Rightarrow> result" where
  "handleHTTPRequest g parses now request s =
     (if state s = Closing \<or> state s = Closed
      then Inr (s, [SendTextResponse 503 ''ERROR: Browser session has been closed''])
      else
        let r = refreshSecurityStatus now s
        in emit (snd r)
             (if reqMethod request = ''GET'' then dispatch g parses now (reqPath request) (fst r)
              else Inr (fst r, [invalidRequest])))"

subsection \<open>Timer callbacks (lambdas at lines 778-789 and 722-727)\<close>

text \<open>
  A timer fires once the clock has reached its deadline; firing leaves the timer idle
  and runs the callback. Before the deadline, and on an idle timer, nothing happens.
\<close>

definition inactivityTimeoutFired :: "time_point \<Rightarrow> bool \<Rightarrow> Session \<Rightarrow> result" where
  "inactivityTimeoutFired now shortened s =
     (let t = (if shortened then inactivityTimeoutShort s else inactivityTimeoutLong s)
      in case deadline t of
           None \<Rightarrow> Inr (s, [])
         | Some d \<Rightarrow>
             if now < d then Inr (s, [])
             else
               let s1 = (if shortened then s\<lparr>inactivityTimeoutShort := Timeout_clear t\<rparr>
                         else s\<lparr>inactivityTimeoutLong := Timeout_clear t\<rparr>)
               in if state s1 = Pending \<or> state s1 = Open then close s1 else Inr (s1, []))"

definition downloadTimeoutFired :: "time_point \<Rightarrow> uint64 \<Rightarrow> Session \<Rightarrow> result" where
  "downloadTimeoutFired now downloadIdx s =
     (case downloads s downloadIdx of
        None \<Rightarrow> Inr (s, [])
      | Some entry \<Rightarrow>
          (case deadline (snd entry) of
             None \<Rightarrow> Inr (s, [])
           | Some d \<Rightarrow>
               if now < d then Inr (s, [])
               else Inr (s\<lparr>downloads := (downloads s)(downloadIdx := None)\<rparr>, [])))"

subsection \<open>The remaining callbacks (lines 84-132, 307-323, 603-642, 682-733)\<close>

definition onWidgetCursorChanged :: "SignalConsts \<Rightarrow> int \<Rightarrow> Session \<Rightarrow> result" where
  "onWidgetCursorChanged g cursor s =
     (if 0 \<le> cursor \<and> cursor < CursorTypeCount g then setHeightSignal g cursor s
      else Inl RequireFailed)"

definition onDownloadCompleted :: "SignalConsts \<Rightarrow> CompletedDownload \<Rightarrow> Session \<Rightarrow> result" where
  "onDownloadCompleted g file s = addIframe g (DownloadIframe file) s"

definition onClipboardButtonPressed :: "SignalConsts \<Rightarrow> Session \<Rightarrow> result" where
  "onClipboardButtonPressed g s = addIframe g ClipboardIframe s"

text \<open>
  \<open>OnBeforePopup\<close> (lines 84-132), seen from the session that opens the popup.
  \<open>handlerAlive\<close> is whether \<open>eventHandler_.lock()\<close> yields a handler and \<open>serverFull\<close> is
  what \<open>onIsServerFullQuery()\<close> answers: in both early returns nothing is queued.
  Otherwise the popup session is created and its id, \<open>popupSessionID\<close>, is queued.
\<close>

definition OnBeforePopup :: "SignalConsts \<Rightarrow> bool \<Rightarrow> bool \<Rightarrow> uint64 \<Rightarrow> Session \<Rightarrow> result" where
  "OnBeforePopup g handlerAlive serverFull popupSessionID s =
     (if \<not> handlerAlive then Inr (s, [])
      else if serverFull then Inr (s, [])
      else addIframe g (PopupIframe popupSessionID) s)"

text \<open>\<open>OnPreKeyEvent\<close> on an unhandled backspace: back, or forward with shift.\<close>

definition OnPreKeyEvent :: "time_point \<Rightarrow> bool \<Rightarrow> Session \<Rightarrow> result" where
  "OnPreKeyEvent now shift s = navigate now (if shift then 1 else -1) s"

text \<open>\<open>onGlobalHotkeyPressed(GlobalHotkey::Refresh)\<close>; the other hotkeys only reach the control bar.\<close>

definition onRefreshHotkey :: "time_point \<Rightarrow> Session \<Rightarrow> result" where
  "onRefreshHotkey now s = navigate now 0 s"

subsection \<open>Everything that can happen to a session\<close>

text \<open>\<open>Session::create\<close>: the constructor followed by \<open>afterConstruct_\<close>.\<close>

definition Session_create ::
  "SignalConsts \<Rightarrow> time_point \<Rightarrow> uint64 \<Rightarrow> bool \<Rightarrow> bool \<Rightarrow> result" where
  "Session_create g now sid popup createOk = afterConstruct now createOk (Session_new g now sid popup)"

datatype Operation =
    OpHandleHTTPRequest time_point HTTPRequest
  | OpClose
  | OpOnAfterCreated
  | OpOnBeforeClose time_point
  | OpInactivityTimeoutFired time_point bool
  | OpDownloadTimeoutFired time_point uint64
  | OpOnDownloadCompleted CompletedDownload
  | OpOnClipboardButtonPressed
  | OpOnBeforePopup bool bool uint64
  | OpOnWidgetCursorChanged int
  | OpViewDirty
  | OpOnPreKeyEvent time_point bool
  | OpRefreshHotkey time_point

fun step :: "SignalConsts \<Rightarrow> (string \<Rightarrow> bool) \<Rightarrow> Operation \<Rightarrow> Session \<Rightarrow> result" where
  "step g parses (OpHandleHTTPRequest now request) s = handleHTTPRequest g parses now request s"
| "step g parses OpClose s = close s"
| "step g parses OpOnAfterCreated s = OnAfterCreated s"
| "step g parses (OpOnBeforeClose now) s = OnBeforeClose now s"
| "step g parses (OpInactivityTimeoutFired now shortened) s = inactivityTimeoutFired now shortened s"
| "step g parses (OpDownloadTimeoutFired now downloadIdx) s = downloadTimeoutFired now downloadIdx s"
| "step g parses (OpOnDownloadCompleted file) s = onDownloadCompleted g file s"
| "step g parses OpOnClipboardButtonPressed s = onClipboardButtonPressed g s"
| "step g parses (OpOnBeforePopup handlerAlive serverFull popupSessionID) s =
     OnBeforePopup g handlerAlive serverFull popupSessionID s"
| "step g parses (OpOnWidgetCursorChanged cursor) s = onWidgetCursorChanged g cursor s"
| "step g parses OpViewDirty s = sendViewportToCompressor g s"
| "step g parses (OpOnPreKeyEvent now shift) s = OnPreKeyEvent now shift s"
| "step g parses (OpRefreshHotkey now) s = onRefreshHotkey now s"

text \<open>A run of operations, stopping at the first failed \<open>REQUIRE\<close>.\<close>

fun run :: "SignalConsts \<Rightarrow> (string \<Rightarrow> bool) \<Rightarrow> Operation list \<Rightarrow> Session \<Rightarrow> result" where
  "run g parses [] s = Inr (s, [])"
| "run g parses (op # ops) s = andThen (step g parses op s) (run g parses ops)"

section \<open>Scenarios used in the statements\<close>

text \<open>
  The constants of the spec's examples: \<open>Wmod = 4\<close>, \<open>Hmod = 8\<close>, width signal 0 for
  "no iframe queued" and 1 for "iframe queued", cursor code 0 for the normal cursor.
\<close>

definition exampleConsts :: SignalConsts where
  "exampleConsts =
     \<lparr>WidthSignalModulus = 4, HeightSignalModulus = 8, WidthSignalNewIframe = 1,
      WidthSignalNoNewIframe = 0, NormalCursor = 0, CursorTypeCount = 8\<rparr>"

text \<open>
  A sequence of event batches handled one after the other within one page generation:
  each batch is \<open>(startEventIdx, text)\<close> as an accepted image poll hands it to
  \<open>handleEvents_\<close>. The result lists every call of \<open>processEvent\<close> with its sequence number.
\<close>

fun handleEvents_batches :: "uint64 \<Rightarrow> (uint64 \<times> string) list \<Rightarrow> (uint64 \<times> string) list \<times> uint64" where
  "handleEvents_batches cur [] = ([], cur)"
| "handleEvents_batches cur ((startIdx, batch) # bs) =
     (let r = handleEvents_calls startIdx batch cur;
          r' = handleEvents_batches (snd r) bs
      in (fst r @ fst r', snd r'))"

text \<open>A GET request for a parsed path.\<close>

definition GET :: "RequestPath \<Rightarrow> HTTPRequest" where
  "GET p = \<lparr>reqMethod = ''GET'', reqPath = p\<rparr>"

text \<open>
  The event batch of a request fits when its sequence numbers stay below \<open>2^64\<close>:
  \<open>startEventIdx\<close> plus the number of tokens (one per \<open>/\<close>) does not wrap around.
\<close>

fun batchFits :: "RequestPath \<Rightarrow> bool" where
  "batchFits (ImagePath mainIdx imgIdx immediate width height (Some startEventIdx) batch) =
     (unat startEventIdx + count_list batch CHR ''/'' < 2 ^ 64)"
| "batchFits p = True"

fun eventsFit :: "Operation \<Rightarrow> bool" where
  "eventsFit (OpHandleHTTPRequest now request) = batchFits (reqPath request)"
| "eventsFit op = True"

text \<open>
  What one operation may do to the four counters: \<open>mainIdx\<close> and \<open>downloadIdx\<close> stay or
  go up by one; while \<open>mainIdx\<close> stays, \<open>imgIdx\<close> does not go down and, when the event
  batch fits, neither does \<open>eventIdx\<close>; when \<open>mainIdx\<close> moves, \<open>imgIdx\<close> and \<open>eventIdx\<close>
  restart at 0.
\<close>

definition countersStep :: "bool \<Rightarrow> Session \<Rightarrow> Session \<Rightarrow> bool" where
  "countersStep fit s s' \<longleftrightarrow>
     (curMainIdx s' = curMainIdx s \<or> curMainIdx s' = curMainIdx s + 1) \<and>
     (curDownloadIdx s' = curDownloadIdx s \<or> curDownloadIdx s' = curDownloadIdx s + 1) \<and>
     (curMainIdx s' = curMainIdx s \<longrightarrow>
        curImgIdx s \<le> curImgIdx s' \<and> (fit \<longrightarrow> curEventIdx s \<le> curEventIdx s')) \<and>
     (curMainIdx s' \<noteq> curMainIdx s \<longrightarrow> curImgIdx s' = 0 \<and> curEventIdx s' = 0)"

text \<open>The handle-level command of a direction: the three \<open>if\<close>s at lines 933-941 of \<open>navigate_\<close>.\<close>

definition navCommand :: "int \<Rightarrow> effect" where
  "navCommand direction =
     (if direction = -1 then GoBack else if direction = 0 then Reload else GoForward)"

text \<open>An image poll is accepted when the request is handed to the compressor to be answered.\<close>

definition imageAccepted :: "result \<Rightarrow> bool" where
  "imageAccepted r =
     (case r of
        Inl e \<Rightarrow> False
      | Inr x \<Rightarrow> SendCompressedImageNow \<in> set (snd x) \<or> SendCompressedImageWait \<in> set (snd x))"

text \<open>
  The long inactivity timer is rearmed at \<open>now\<close>: it is armed to fire its delay after
  \<open>now\<close> and the short timer is idle. The short timer is armed at \<open>now\<close>: the converse.
  The timers are the same: neither was touched.
\<close>

definition longTimerRearmed :: "time_point \<Rightarrow> Session \<Rightarrow> Session \<Rightarrow> bool" where
  "longTimerRearmed now s s' \<longleftrightarrow>
     deadline (inactivityTimeoutLong s') = Some (now + delayMs (inactivityTimeoutLong s) * 1000000) \<and>
     deadline (inactivityTimeoutShort s') = None"

definition shortTimerArmed :: "time_point \<Rightarrow> Session \<Rightarrow> Session \<Rightarrow> bool" where
  "shortTimerArmed now s s' \<longleftrightarrow>
     deadline (inactivityTimeoutShort s') = Some (now + delayMs (inactivityTimeoutShort s) * 1000000) \<and>
     deadline (inactivityTimeoutLong s') = None"

definition sameTimers :: "Session \<Rightarrow> Session \<Rightarrow> bool" where
  "sameTimers s s' \<longleftrightarrow>
     inactivityTimeoutLong s' = inactivityTimeoutLong s \<and>
     inactivityTimeoutShort s' = inactivityTimeoutShort s"

text \<open>
  The commands that reach the browser handle from \<open>navigate_\<close>, and the navigation
  commands among the effects of an operation.
\<close>

fun isNavCommand :: "effect \<Rightarrow> bool" where
  "isNavCommand GoBack = True"
| "isNavCommand Reload = True"
| "isNavCommand GoForward = True"
| "isNavCommand e = False"

definition navCommands :: "effect list \<Rightarrow> effect list" where
  "navCommands es = filter isNavCommand es"

text \<open>
  The operations that call \<open>navigate_\<close>, with the time and the direction they pass: the
  backspace shortcut (\<open>OnPreKeyEvent\<close>, lines 313-320), the refresh hotkey (line 638) and,
  on a session that is Pending or Open, the main page after the first load (lines
  539-545) and the prev and next pages (lines 569-572, 586-589).
\<close>

fun pathTrigger :: "RequestPath \<Rightarrow> Session \<Rightarrow> int option" where
  "pathTrigger MainPath s =
     (if preMainVisited s \<and> curMainIdx s + 1 > 1 \<and> \<not> prevNextClicked s then Some 0 else None)"
| "pathTrigger PrevPath s =
     (if curMainIdx s > 0 \<and> \<not> prevNextClicked s then Some (-1) else None)"
| "pathTrigger NextPath s =
     (if curMainIdx s > 0 \<and> \<not> prevNextClicked s then Some 1 else None)"
| "pathTrigger p s = None"

fun navTrigger :: "Operation \<Rightarrow> Session \<Rightarrow> (time_point \<times> int) option" where
  "navTrigger (OpOnPreKeyEvent now shift) s = Some (now, if shift then 1 else -1)"
| "navTrigger (OpRefreshHotkey now) s = Some (now, 0)"
| "navTrigger (OpHandleHTTPRequest now request) s =
     (if (state s = Pending \<or> state s = Open) \<and> reqMethod request = ''GET''
      then map_option (Pair now) (pathTrigger (reqPath request) s) else None)"
| "navTrigger op s = None"

text \<open>
  What an operation does to the browser handle and to \<open>lastNavigateOperationTime_\<close>.
  An operation that is no trigger issues no navigation command and leaves the clock. A
  trigger within 200 ms of the clock is suppressed and leaves the clock; a later one
  sets the clock and, when the browser handle is present, issues its one command.
\<close>

definition navOutcome ::
  "(time_point \<times> int) option \<Rightarrow> Session \<Rightarrow> Session \<Rightarrow> effect list \<Rightarrow> bool" where
  "navOutcome trigger s s' es =
     (case trigger of
        None \<Rightarrow>
          navCommands es = [] \<and> lastNavigateOperationTime s' = lastNavigateOperationTime s
      | Some (t, d) \<Rightarrow>
          -1 \<le> d \<and> d \<le> 1 \<and>
          (if duration_ms (t - lastNavigateOperationTime s) \<le> 200
           then navCommands es = [] \<and> lastNavigateOperationTime s' = lastNavigateOperationTime s
           else navCommands es = (if browser s then [navCommand d] else []) \<and>
                lastNavigateOperationTime s' = t))"

section \<open>Evaluation of concrete runs\<close>

lemmas eval_defs =
  GET_def handleHTTPRequest_def refreshSecurityStatus_def handleImage_def handleIframe_def handleDownload_def handleClose_def
  handleMain_def handlePrev_def handleNext_def updateInactivityTimeout_def updateSecurityStatus_def
  updateRootViewportSize_def handleEvents_def handleEvents_calls_def eventEffects_def
  processEvent_def navigate_def duration_ms_def andThen_def emit_def Let_def Session_new_def
  exampleConsts_def Timeout_create_def Timeout_clear_def Timeout_set_def outdatedRequest_def
  invalidRequest_def close_def

lemmas eval_more =
  Session_create_def afterConstruct_def onDownloadCompleted_def addIframe_def setWidthSignal_def
  sendViewportToCompressor_def signalLoop.simps c_rem_def INT_MIN_def downloadTimeoutFired_def

section \<open>The event sequencer\<close>

lemma unat_inc: "unat (x::uint64) + 1 < 2^64 \<Longrightarrow> unat (x + 1) = unat x + 1"
  by (simp add: unat_word_ariths)

lemma loop_nat:
  "eventIdx \<le> cur \<Longrightarrow> unat eventIdx + count_list batch CHR ''/'' < 2^64 \<Longrightarrow>
   map (\<lambda>c. unat (fst c)) (fst (handleEvents_loop eventIdx cur tok batch)) = [unat cur ..< unat eventIdx + count_list batch CHR ''/''] \<and>
   unat (snd (handleEvents_loop eventIdx cur tok batch)) = max (unat cur) (unat eventIdx + count_list batch CHR ''/'')"
proof (induction eventIdx cur tok batch rule: handleEvents_loop.induct)
  case (1 eventIdx cur tok)
  then show ?case by (simp add: word_le_nat_alt max_def)
next
  case (2 eventIdx cur tok c cs)
  show ?case
  proof (cases "c = CHR ''/''")
    case False
    with 2 show ?thesis by simp
  next
    case slash: True
    have fit: "unat eventIdx + 1 + count_list cs CHR ''/'' < 2^64" using 2(5) slash by simp
    hence inc: "unat (eventIdx + 1) = unat eventIdx + 1" by (simp add: unat_inc)
    show ?thesis
    proof (cases "eventIdx = cur")
      case True
      have "map (\<lambda>c. unat (fst c)) (fst (handleEvents_loop (eventIdx + 1) (eventIdx + 1) [] cs)) = [unat (eventIdx + 1) ..< unat (eventIdx + 1) + count_list cs CHR ''/''] \<and>
            unat (snd (handleEvents_loop (eventIdx + 1) (eventIdx + 1) [] cs)) = max (unat (eventIdx + 1)) (unat (eventIdx + 1) + count_list cs CHR ''/'')"
        using 2(1)[OF slash True] fit inc by (simp del: upt_Suc)
      moreover have "[unat cur ..< unat cur + Suc (count_list cs CHR ''/'')] = unat cur # [Suc (unat cur) ..< unat cur + Suc (count_list cs CHR ''/'')]"
        by (rule upt_conv_Cons) simp
      ultimately show ?thesis using slash True inc by (simp add: Let_def del: upt_Suc)
    next
      case False
      hence lt: "unat eventIdx < unat cur" using 2(4) by (simp add: word_le_nat_alt word_unat_eq_iff)
      hence le: "eventIdx + 1 \<le> cur" using inc by (simp add: word_le_nat_alt)
      have "map (\<lambda>c. unat (fst c)) (fst (handleEvents_loop (eventIdx + 1) cur [] cs)) = [unat cur ..< unat (eventIdx + 1) + count_list cs CHR ''/''] \<and>
            unat (snd (handleEvents_loop (eventIdx + 1) cur [] cs)) = max (unat cur) (unat (eventIdx + 1) + count_list cs CHR ''/'')"
        using 2(2)[OF slash False le] fit inc by (simp del: upt_Suc)
      then show ?thesis using slash False inc by (simp del: upt_Suc)
    qed
  qed
qed

lemma calls_nat:
  assumes "unat startIdx + count_list batch CHR ''/'' < 2^64"
  shows "map (\<lambda>c. unat (fst c)) (fst (handleEvents_calls startIdx batch cur)) =
           [max (unat cur) (unat startIdx) ..< unat startIdx + count_list batch CHR ''/''] \<and>
         unat (snd (handleEvents_calls startIdx batch cur)) =
           max (unat cur) (unat startIdx + count_list batch CHR ''/'')"
proof (cases "cur < startIdx")
  case True
  hence "unat cur < unat startIdx" by (simp add: word_less_nat_alt)
  thus ?thesis using True loop_nat[of startIdx startIdx batch "[]"] assms
    by (simp add: handleEvents_calls_def max_def)
next
  case False
  hence le: "startIdx \<le> cur" by simp
  hence "unat startIdx \<le> unat cur" by (simp add: word_le_nat_alt)
  thus ?thesis using False loop_nat[OF le assms, of "[]"]
    by (simp add: handleEvents_calls_def max_def)
qed

lemma batches_nat:
  "\<forall>b\<in>set bs. unat (fst b) + count_list (snd b) CHR ''/'' < 2^64 \<Longrightarrow>
   sorted_wrt (<) (map (\<lambda>c. unat (fst c)) (fst (handleEvents_batches cur bs))) \<and>
   (\<forall>c\<in>set (fst (handleEvents_batches cur bs)).
      unat cur \<le> unat (fst c) \<and> unat (fst c) < unat (snd (handleEvents_batches cur bs))) \<and>
   unat cur \<le> unat (snd (handleEvents_batches cur bs))"
proof (induction bs arbitrary: cur)
  case Nil
  then show ?case by simp
next
  case (Cons b bs)
  obtain startIdx batch where b: "b = (startIdx, batch)" by (cases b)
  let ?r = "handleEvents_calls startIdx batch cur"
  let ?n = "unat startIdx + count_list batch CHR ''/''"
  have fit: "?n < 2^64" using Cons.prems b by simp
  note c = calls_nat[OF fit, of cur]
  have first_set: "\<forall>c\<in>set (fst ?r). unat cur \<le> unat (fst c) \<and> unat (fst c) < unat (snd ?r)"
  proof
    fix x assume "x \<in> set (fst ?r)"
    hence "unat (fst x) \<in> set (map (\<lambda>c. unat (fst c)) (fst ?r))" by simp
    hence "unat (fst x) \<in> set [max (unat cur) (unat startIdx) ..< ?n]" using c by simp
    thus "unat cur \<le> unat (fst x) \<and> unat (fst x) < unat (snd ?r)" using c by auto
  qed
  have first_sorted: "sorted_wrt (<) (map (\<lambda>c. unat (fst c)) (fst ?r))"
    using c by simp
  have ih: "sorted_wrt (<) (map (\<lambda>c. unat (fst c)) (fst (handleEvents_batches (snd ?r) bs))) \<and>
   (\<forall>c\<in>set (fst (handleEvents_batches (snd ?r) bs)).
      unat (snd ?r) \<le> unat (fst c) \<and> unat (fst c) < unat (snd (handleEvents_batches (snd ?r) bs))) \<and>
   unat (snd ?r) \<le> unat (snd (handleEvents_batches (snd ?r) bs))"
    using Cons.IH[of "snd ?r"] Cons.prems by simp
  have mono: "unat cur \<le> unat (snd ?r)" using c by simp
  show ?case using first_set first_sorted ih mono
    by (simp add: b Let_def sorted_wrt_append) force
qed


text \<open>
  Sequence numbers are 64-bit and wrap around: a batch that starts at \<open>2^64 - 1\<close> applies
  its second token under sequence number 0 and leaves the expectation at 1, so the same
  batch sent again is applied a second time.
  Sent as two image polls with \<open>startEventIdx = 18446744073709551615\<close>, both events
  reach the widget tree twice.
\<close>

theorem C2_counterexample_wraparound:
  "fst (handleEvents_batches 0
          [(18446744073709551615, ''A/B/''), (18446744073709551615, ''A/B/'')]) =
     [(18446744073709551615, ''A/''), (0, ''B/''), (18446744073709551615, ''A/''), (0, ''B/'')] \<and>
   \<not> distinct (map fst (fst (handleEvents_batches 0
          [(18446744073709551615, ''A/B/''), (18446744073709551615, ''A/B/'')]))) \<and>
   map_sum id snd
     (run exampleConsts (\<lambda>t. True)
        [OpHandleHTTPRequest 0
           (GET (ImagePath (Some 0) (Some 2) (Some 1) (Some 800) (Some 600)
                   (Some 18446744073709551615) ''A/B/'')),
         OpHandleHTTPRequest 0
           (GET (ImagePath (Some 0) (Some 3) (Some 1) (Some 800) (Some 600)
                   (Some 18446744073709551615) ''A/B/''))]
        (Session_new exampleConsts 0 1 False)) =
   Inr [WarningLog ''events skipped'', WidgetInputEvent ''A/'', WidgetInputEvent ''B/'',
        SendCompressedImageNow,
        WarningLog ''events skipped'', WidgetInputEvent ''A/'', WidgetInputEvent ''B/'',
        SendCompressedImageNow]"
  by (simp add: eval_defs)

text \<open>
  C2 (amended). For every sequence of event batches in which no sequence number reaches
  \<open>2^64\<close> (\<open>startEventIdx\<close> plus the number of tokens of the batch stays below \<open>2^64\<close>),
  overlapping batches included, each sequence number is applied at most once: the applied
  sequence numbers are strictly increasing from the first call to the last, none is
  below the expectation the sequence started with and all are below the final one.
  Token by token: a token whose sequence number differs from the expectation (below it,
  a duplicate) is skipped and leaves the expectation alone; a \<open>startEventIdx\<close> above the
  expectation moves the expectation to \<open>startEventIdx\<close>; a token whose sequence number
  equals the expectation is applied and the expectation advances by one.
\<close>

theorem C2_events_applied_at_most_once:
  assumes "\<forall>b\<in>set bs. unat (fst b) + count_list (snd b) CHR ''/'' < 2 ^ 64"
  shows "distinct (map fst (fst (handleEvents_batches cur bs))) \<and>
         sorted_wrt (<) (map fst (fst (handleEvents_batches cur bs))) \<and>
         (\<forall>c\<in>set (fst (handleEvents_batches cur bs)).
            cur \<le> fst c \<and> fst c < snd (handleEvents_batches cur bs)) \<and>
         (eventIdx \<noteq> cur' \<longrightarrow>
            handleEvents_loop eventIdx cur' tok (CHR ''/'' # cs) =
            handleEvents_loop (eventIdx + 1) cur' [] cs) \<and>
         (cur' < startIdx \<longrightarrow>
            handleEvents_calls startIdx batch cur' = handleEvents_loop startIdx startIdx [] batch) \<and>
         (\<not> cur' < startIdx \<longrightarrow>
            handleEvents_calls startIdx batch cur' = handleEvents_loop startIdx cur' [] batch) \<and>
         handleEvents_loop cur' cur' tok (CHR ''/'' # cs) =
           ((cur', tok @ ''/'') # fst (handleEvents_loop (cur' + 1) (cur' + 1) [] cs),
            snd (handleEvents_loop (cur' + 1) (cur' + 1) [] cs))"
proof -
  let ?r = "handleEvents_batches cur bs"
  note n = batches_nat[OF assms, of cur]
  have s: "sorted_wrt (<) (map unat (map fst (fst ?r)))" using n by (simp add: comp_def)
  hence "distinct (map unat (map fst (fst ?r)))" using strict_sorted_iff by blast
  hence d: "distinct (map fst (fst ?r))"
    using distinct_map[of unat "map fst (fst ?r)"] by blast
  have w: "sorted_wrt (<) (map fst (fst ?r))"
    using s by (simp add: sorted_wrt_map word_less_nat_alt)
  have b: "\<forall>c\<in>set (fst ?r). cur \<le> fst c \<and> fst c < snd ?r"
    using n by (simp add: word_le_nat_alt word_less_nat_alt)
  show ?thesis using d w b by (simp add: handleEvents_calls_def Let_def)
qed

theorem C2_witness_overlapping_batches:
  "fst (handleEvents_batches 0 [(0, ''A/B/''), (1, ''B/C/''), (0, ''A/B/C/D/'')]) =
     [(0, ''A/''), (1, ''B/''), (2, ''C/''), (3, ''D/'')] \<and>
   distinct (map fst (fst (handleEvents_batches 0 [(0, ''A/B/''), (1, ''B/C/''), (0, ''A/B/C/D/'')])))"
proof -
  have h: "\<forall>b\<in>set [(0::uint64, ''A/B/''), (1, ''B/C/''), (0, ''A/B/C/D/'')].
             unat (fst b) + count_list (snd b) CHR ''/'' < 2 ^ 64"
    by simp
  have "fst (handleEvents_batches 0 [(0, ''A/B/''), (1, ''B/C/''), (0, ''A/B/C/D/'')]) =
     [(0, ''A/''), (1, ''B/''), (2, ''C/''), (3, ''D/'')]"
    by (simp add: handleEvents_calls_def Let_def)
  thus ?thesis using C2_events_applied_at_most_once[OF h, of 0] by blast
qed



section \<open>The image delivery pipeline\<close>

lemma c_rem_nonneg: "0 \<le> a \<Longrightarrow> 0 < b \<Longrightarrow> c_rem a b = a mod b"
  by (cases "a = 0") (simp_all add: c_rem_def)

lemma mod_pred: 
  fixes d m :: int
  assumes "0 < m" "d mod m \<noteq> 0"
  shows "(d - 1) mod m = d mod m - 1"
proof -
  have "0 \<le> d mod m" "d mod m < m" using assms(1) by simp_all
  hence r: "0 \<le> d mod m - 1" "d mod m - 1 < m" using assms(2) by linarith+
  have "(d - 1) mod m = (d mod m - 1) mod m" by (simp add: mod_diff_left_eq)
  also have "\<dots> = d mod m - 1" using r by (rule mod_pos_pos_trivial)
  finally show ?thesis .
qed

lemma signalLoop_closed:
  "0 \<le> signal \<Longrightarrow> signal < modulus \<Longrightarrow> signal \<le> width \<Longrightarrow>
   signalLoop modulus signal width = Inr (width - (width - signal) mod modulus)"
proof (induction modulus signal width rule: signalLoop.induct)
  case (1 modulus signal width)
  have m: "0 < modulus" using 1(2,3) by linarith
  have w: "0 \<le> width" using 1(2,4) by linarith
  have rem: "c_rem width modulus = width mod modulus" using w m by (rule c_rem_nonneg)
  have sm: "signal mod modulus = signal" using 1(2,3) by simp
  show ?case
  proof (cases "width mod modulus = signal")
    case True
    hence "(width - signal) mod modulus = 0"
      by (metis cancel_comm_monoid_add_class.diff_cancel mod_0 mod_diff_left_eq)
    thus ?thesis using True rem by (simp add: signalLoop.simps[of modulus signal width])
  next
    case False
    have ne: "width \<noteq> signal" using False sm by auto
    hence gt: "signal \<le> width - 1" using 1(4) by linarith
    have nmin: "\<not> width \<le> INT_MIN" using w by (simp add: INT_MIN_def)
    have ih: "signalLoop modulus signal (width - 1) = Inr (width - 1 - (width - 1 - signal) mod modulus)"
      using 1(1) False rem nmin 1(2,3) gt by simp
    have "(width - signal) mod modulus \<noteq> 0"
    proof
      assume "(width - signal) mod modulus = 0"
      hence "(width - signal + signal) mod modulus = (0 + signal) mod modulus"
        by (metis mod_add_left_eq)
      thus False using False sm by simp
    qed
    hence "(width - signal - 1) mod modulus = (width - signal) mod modulus - 1"
      using m by (rule mod_pred[rotated])
    hence e: "(width - 1 - signal) mod modulus = (width - signal) mod modulus - 1"
      by (simp add: algebra_simps)
    show ?thesis using False rem nmin ih e
      by (simp add: signalLoop.simps[of modulus signal width])
  qed
qed

lemma largest_residue:
  fixes w m sig :: int
  assumes "0 \<le> sig" "sig < m"
  defines "W \<equiv> w - (w - sig) mod m"
  shows "W mod m = sig" "W \<le> w" "w - (m - 1) \<le> W" "\<And>W'. W' \<le> w \<Longrightarrow> W' mod m = sig \<Longrightarrow> W' \<le> W"
proof -
  have m: "0 < m" using assms by linarith
  have r: "0 \<le> (w - sig) mod m" "(w - sig) mod m < m" using m by simp_all
  have "W mod m = (w - (w - sig)) mod m" unfolding W_def by (simp add: mod_diff_right_eq)
  thus a: "W mod m = sig" using assms by simp
  show "W \<le> w" using r unfolding W_def by linarith
  show "w - (m - 1) \<le> W" using r unfolding W_def by linarith
  fix W' assume h: "W' \<le> w" "W' mod m = sig"
  show "W' \<le> W"
  proof (rule ccontr)
    assume "\<not> W' \<le> W"
    hence lt: "0 < W' - W" "W' - W < m" using h(1) r unfolding W_def by linarith+
    have "(W' - W) mod m = 0" using a h(2) by (metis mod_diff_cong cancel_comm_monoid_add_class.diff_cancel mod_0)
    moreover have "(W' - W) mod m = W' - W" using lt by (simp add: mod_pos_pos_trivial)
    ultimately show False using lt by simp
  qed
qed

lemma sendViewport_largest:
  assumes "0 \<le> widthSignal s" "widthSignal s < WidthSignalModulus g"
      and "0 \<le> heightSignal s" "heightSignal s < HeightSignalModulus g"
      and "paddedRootViewport s = (lw + WidthSignalModulus g - 1, lh + HeightSignalModulus g - 1)"
      and "0 \<le> lw" "0 \<le> lh"
  shows "\<exists>W H. sendViewportToCompressor g s = Inr (s, [CompressorUpdateImage W H]) \<and>
           W mod WidthSignalModulus g = widthSignal s \<and>
           W \<le> lw + WidthSignalModulus g - 1 \<and>
           (\<forall>W'. W' \<le> lw + WidthSignalModulus g - 1 \<and> W' mod WidthSignalModulus g = widthSignal s
                 \<longrightarrow> W' \<le> W) \<and>
           lw \<le> W \<and>
           H mod HeightSignalModulus g = heightSignal s \<and>
           H \<le> lh + HeightSignalModulus g - 1 \<and>
           (\<forall>H'. H' \<le> lh + HeightSignalModulus g - 1 \<and> H' mod HeightSignalModulus g = heightSignal s
                 \<longrightarrow> H' \<le> H) \<and>
           lh \<le> H"
proof -
  let ?pw = "lw + WidthSignalModulus g - 1" and ?ph = "lh + HeightSignalModulus g - 1"
  let ?W = "?pw - (?pw - widthSignal s) mod WidthSignalModulus g"
  let ?H = "?ph - (?ph - heightSignal s) mod HeightSignalModulus g"
  have lw: "signalLoop (WidthSignalModulus g) (widthSignal s) ?pw = Inr ?W"
    using assms(1,2,6) by (intro signalLoop_closed) linarith+
  have lh: "signalLoop (HeightSignalModulus g) (heightSignal s) ?ph = Inr ?H"
    using assms(3,4,7) by (intro signalLoop_closed) linarith+
  have run: "sendViewportToCompressor g s = Inr (s, [CompressorUpdateImage ?W ?H])"
    using assms(1-5) lw lh by (simp add: sendViewportToCompressor_def)
  note pw = largest_residue[OF assms(1,2), where w = ?pw]
  note ph = largest_residue[OF assms(3,4), where w = ?ph]
  have "lw \<le> ?W" using pw(3) by linarith
  moreover have "lh \<le> ?H" using ph(3) by linarith
  ultimately show ?thesis using run pw(1,2,4) ph(1,2,4) by blast
qed

text \<open>
  With \<open>Wmod = 4\<close>, \<open>Hmod = 8\<close> and both signals 0, a fresh session resized to 801 x 600
  delivers a frame of 804 x 600: the padded buffer is 804 wide and 804 is itself a
  multiple of 4. The width is not inside \<open>[800,804)\<close>.
\<close>

theorem C3_counterexample:
  "map_sum id snd (sendViewportToCompressor exampleConsts
      (fst (updateRootViewportSize exampleConsts 801 600 (Session_new exampleConsts 0 1 False)))) =
   Inr [CompressorUpdateImage 804 600]"
  by (simp add: sendViewportToCompressor_def updateRootViewportSize_def Session_new_def exampleConsts_def
      signalLoop.simps c_rem_def INT_MIN_def)

text \<open>
  C3 (amended). After a resize request the logical size is the requested size clamped to
  \<open>[64,4096]\<close> and the padded buffer is \<open>(logicalWidth + Wmod - 1) x (logicalHeight + Hmod - 1)\<close>.
  The frame handed to the compressor has the largest width not above the padded width
  whose residue modulo \<open>Wmod\<close> is \<open>widthSignal\<close>, and the largest such height for
  \<open>Hmod\<close> and \<open>heightSignal\<close>; it is never smaller than the logical size, so it lies
  within \<open>[logicalWidth, logicalWidth + Wmod) x [logicalHeight, logicalHeight + Hmod)\<close>. With
  \<open>Wmod = 4\<close>, \<open>Hmod = 8\<close> and a request of 801 x 600 that is \<open>[801,805) x [600,608)\<close>.
\<close>

theorem C3_delivered_frame_size:
  assumes "0 \<le> widthSignal s" "widthSignal s < WidthSignalModulus g"
      and "0 \<le> heightSignal s" "heightSignal s < HeightSignalModulus g"
      and "paddedRootViewport s =
             (fst (rootViewport s) + WidthSignalModulus g - 1,
              snd (rootViewport s) + HeightSignalModulus g - 1)"
      and "s1 = fst (updateRootViewportSize g width height s)"
      and "lw = max (min width 4096) 64" "lh = max (min height 4096) 64"
  shows "rootViewport s1 = (lw, lh) \<and>
         paddedRootViewport s1 = (lw + WidthSignalModulus g - 1, lh + HeightSignalModulus g - 1) \<and>
         (\<exists>W H. sendViewportToCompressor g s1 = Inr (s1, [CompressorUpdateImage W H]) \<and>
            W mod WidthSignalModulus g = widthSignal s \<and>
            W \<le> lw + WidthSignalModulus g - 1 \<and>
            (\<forall>W'. W' \<le> lw + WidthSignalModulus g - 1 \<and> W' mod WidthSignalModulus g = widthSignal s
                  \<longrightarrow> W' \<le> W) \<and>
            lw \<le> W \<and>
            H mod HeightSignalModulus g = heightSignal s \<and>
            H \<le> lh + HeightSignalModulus g - 1 \<and>
            (\<forall>H'. H' \<le> lh + HeightSignalModulus g - 1 \<and> H' mod HeightSignalModulus g = heightSignal s
                  \<longrightarrow> H' \<le> H) \<and>
            lh \<le> H)"
proof -
  have rv: "rootViewport s1 = (lw, lh)"
    using assms(6-8) by (cases "rootViewport s") (auto simp: updateRootViewportSize_def Let_def)
  have pv: "paddedRootViewport s1 = (lw + WidthSignalModulus g - 1, lh + HeightSignalModulus g - 1)"
    using assms(5-8) by (cases "rootViewport s") (auto simp: updateRootViewportSize_def Let_def)
  have sg: "widthSignal s1 = widthSignal s" "heightSignal s1 = heightSignal s"
    using assms(6) by (auto simp: updateRootViewportSize_def Let_def)
  have nn: "0 \<le> lw" "0 \<le> lh" using assms(7,8) by simp_all
  show ?thesis
    using rv pv sendViewport_largest[of s1 g lw lh] assms(1-4) nn unfolding sg by simp
qed

theorem C3_witness:
  "(\<exists>W H. sendViewportToCompressor exampleConsts
             (fst (updateRootViewportSize exampleConsts 801 600 (Session_new exampleConsts 0 1 False))) =
           Inr (fst (updateRootViewportSize exampleConsts 801 600 (Session_new exampleConsts 0 1 False)),
                [CompressorUpdateImage W H]) \<and>
          W mod 4 = 0 \<and> 801 \<le> W \<and> W < 805 \<and> H mod 8 = 0 \<and> 600 \<le> H \<and> H < 608)"
proof -
  let ?s = "Session_new exampleConsts 0 1 False"
  let ?s1 = "fst (updateRootViewportSize exampleConsts 801 600 ?s)"
  have m: "WidthSignalModulus exampleConsts = 4" "HeightSignalModulus exampleConsts = 8"
          "widthSignal ?s = 0" "heightSignal ?s = 0"
    by (simp_all add: Session_new_def exampleConsts_def)
  have h: "0 \<le> widthSignal ?s" "widthSignal ?s < WidthSignalModulus exampleConsts"
          "0 \<le> heightSignal ?s" "heightSignal ?s < HeightSignalModulus exampleConsts"
    by (simp_all add: m)
  have p: "paddedRootViewport ?s =
             (fst (rootViewport ?s) + WidthSignalModulus exampleConsts - 1,
              snd (rootViewport ?s) + HeightSignalModulus exampleConsts - 1)"
    by (simp add: Session_new_def)
  have c: "max (min (801::int) 4096) 64 = 801" "max (min (600::int) 4096) 64 = 600"
    by simp_all
  from C3_delivered_frame_size[OF h p refl refl refl, of 801 600]
  obtain W H where
    "sendViewportToCompressor exampleConsts ?s1 = Inr (?s1, [CompressorUpdateImage W H])"
    "W mod 4 = 0" "W \<le> 804" "801 \<le> W" "H mod 8 = 0" "H \<le> 607" "600 \<le> H"
    unfolding m c by auto
  thus ?thesis by (intro exI[of _ W] exI[of _ H]) simp
qed

section \<open>The session state machine\<close>

lemma andThen_InrE:
  assumes "andThen r f = Inr (s', es)"
  obtains s1 es1 es2 where "r = Inr (s1, es1)" "f s1 = Inr (s', es2)" "es = es1 @ es2"
  using assms by (auto simp: andThen_def split: sum.splits prod.splits)

lemma emit_InrE:
  assumes "emit es0 r = Inr (s', es)"
  obtains es1 where "r = Inr (s', es1)" "es = es0 @ es1"
  using assms by (auto simp: emit_def split: sum.splits prod.splits)


lemma sendViewportToCompressor_same:
  "sendViewportToCompressor g s = Inr (s', es) \<Longrightarrow> s' = s"
  by (auto simp: sendViewportToCompressor_def split: if_splits sum.splits)

lemma setWidthSignal_shape:
  "setWidthSignal g w s = Inr (s', es) \<Longrightarrow> s' = s\<lparr>widthSignal := w\<rparr>"
  by (auto simp: setWidthSignal_def split: if_splits dest!: sendViewportToCompressor_same)

lemma setHeightSignal_shape:
  "setHeightSignal g h s = Inr (s', es) \<Longrightarrow> s' = s\<lparr>heightSignal := h\<rparr>"
  by (auto simp: setHeightSignal_def split: if_splits dest!: sendViewportToCompressor_same)

lemma addIframe_shape:
  "addIframe g iframe s = Inr (s', es) \<Longrightarrow>
   s' = s\<lparr>iframeQueue := iframeQueue s @ [iframe], widthSignal := WidthSignalNewIframe g\<rparr>"
  by (auto simp: addIframe_def dest!: setWidthSignal_shape)

lemma navigate_shape:
  "navigate now direction s = Inr (s', es) \<Longrightarrow>
   s' = s \<or> s' = s\<lparr>lastNavigateOperationTime := now\<rparr>"
  by (auto simp: navigate_def split: if_splits)

lemma state_updateInactivityTimeout [simp]:
  "state (updateInactivityTimeout now shortened s) = state s"
  by (simp add: updateInactivityTimeout_def Let_def)

lemma state_handleEvents [simp]: "state (fst (handleEvents parses startIdx batch s)) = state s"
  by (simp add: handleEvents_def Let_def)

lemma state_updateRootViewportSize [simp]: "state (fst (updateRootViewportSize g w h s)) = state s"
  by (simp add: updateRootViewportSize_def Let_def)

lemma runIframe_state: "runIframe now iframe s = Inr (s', es) \<Longrightarrow> state s' = state s"
  by (cases iframe) (auto simp: Let_def split: if_splits)

lemma handleImage_state:
  "handleImage g parses now mainIdx imgIdx immediate width height startEventIdx batch s = Inr (s', es)
   \<Longrightarrow> state s' = state s"
  by (auto simp: handleImage_def Let_def split: if_splits)

lemma handleIframe_state: "handleIframe g now mainIdx s = Inr (s', es) \<Longrightarrow> state s' = state s"
  by (auto simp: handleIframe_def Let_def split: if_splits list.splits
        elim!: andThen_InrE dest!: setWidthSignal_shape runIframe_state)

lemma handleDownload_state: "handleDownload downloadIdx s = Inr (s', es) \<Longrightarrow> state s' = state s"
  by (auto simp: handleDownload_def split: option.splits)

lemma handleClose_state: "handleClose now mainIdx s = Inr (s', es) \<Longrightarrow> state s' = state s"
  by (auto simp: handleClose_def split: if_splits)

lemma handleMain_state: "handleMain now s = Inr (s', es) \<Longrightarrow> state s' = state s"
  by (auto simp: handleMain_def Let_def split: if_splits elim!: andThen_InrE dest!: navigate_shape)

lemma handlePrev_state: "handlePrev now s = Inr (s', es) \<Longrightarrow> state s' = state s"
  by (auto simp: handlePrev_def Let_def split: if_splits elim!: andThen_InrE dest!: navigate_shape)

lemma handleNext_state: "handleNext now s = Inr (s', es) \<Longrightarrow> state s' = state s"
  by (auto simp: handleNext_def Let_def split: if_splits elim!: andThen_InrE dest!: navigate_shape)

lemma dispatch_state: "dispatch g parses now p s = Inr (s', es) \<Longrightarrow> state s' = state s"
  by (induction g parses now p s rule: dispatch.induct)
     (auto dest: handleImage_state handleIframe_state handleDownload_state handleClose_state
        handleMain_state handlePrev_state handleNext_state)

lemma handleHTTPRequest_state:
  "handleHTTPRequest g parses now request s = Inr (s', es) \<Longrightarrow> state s' = state s"
  by (auto simp: handleHTTPRequest_def refreshSecurityStatus_def updateSecurityStatus_def Let_def
        split: if_splits
        elim!: emit_InrE dest!: dispatch_state)

lemma closeOnOpen_updateInactivityTimeout [simp]:
  "closeOnOpen (updateInactivityTimeout now shortened s) = closeOnOpen s"
  by (simp add: updateInactivityTimeout_def Let_def)

lemma closeOnOpen_handleEvents [simp]: "closeOnOpen (fst (handleEvents parses startIdx batch s)) = closeOnOpen s"
  by (simp add: handleEvents_def Let_def)

lemma closeOnOpen_updateRootViewportSize [simp]: "closeOnOpen (fst (updateRootViewportSize g w h s)) = closeOnOpen s"
  by (simp add: updateRootViewportSize_def Let_def)

lemma runIframe_closeOnOpen: "runIframe now iframe s = Inr (s', es) \<Longrightarrow> closeOnOpen s' = closeOnOpen s"
  by (cases iframe) (auto simp: Let_def split: if_splits)

lemma handleImage_closeOnOpen:
  "handleImage g parses now mainIdx imgIdx immediate width height startEventIdx batch s = Inr (s', es)
   \<Longrightarrow> closeOnOpen s' = closeOnOpen s"
  by (auto simp: handleImage_def Let_def split: if_splits)

lemma handleIframe_closeOnOpen: "handleIframe g now mainIdx s = Inr (s', es) \<Longrightarrow> closeOnOpen s' = closeOnOpen s"
  by (auto simp: handleIframe_def Let_def split: if_splits list.splits
        elim!: andThen_InrE dest!: setWidthSignal_shape runIframe_closeOnOpen)

lemma handleDownload_closeOnOpen: "handleDownload downloadIdx s = Inr (s', es) \<Longrightarrow> closeOnOpen s' = closeOnOpen s"
  by (auto simp: handleDownload_def split: option.splits)

lemma handleClose_closeOnOpen: "handleClose now mainIdx s = Inr (s', es) \<Longrightarrow> closeOnOpen s' = closeOnOpen s"
  by (auto simp: handleClose_def split: if_splits)

lemma handleMain_closeOnOpen: "handleMain now s = Inr (s', es) \<Longrightarrow> closeOnOpen s' = closeOnOpen s"
  by (auto simp: handleMain_def Let_def split: if_splits elim!: andThen_InrE dest!: navigate_shape)

lemma handlePrev_closeOnOpen: "handlePrev now s = Inr (s', es) \<Longrightarrow> closeOnOpen s' = closeOnOpen s"
  by (auto simp: handlePrev_def Let_def split: if_splits elim!: andThen_InrE dest!: navigate_shape)

lemma handleNext_closeOnOpen: "handleNext now s = Inr (s', es) \<Longrightarrow> closeOnOpen s' = closeOnOpen s"
  by (auto simp: handleNext_def Let_def split: if_splits elim!: andThen_InrE dest!: navigate_shape)

lemma dispatch_closeOnOpen: "dispatch g parses now p s = Inr (s', es) \<Longrightarrow> closeOnOpen s' = closeOnOpen s"
  by (induction g parses now p s rule: dispatch.induct)
     (auto dest: handleImage_closeOnOpen handleIframe_closeOnOpen handleDownload_closeOnOpen handleClose_closeOnOpen
        handleMain_closeOnOpen handlePrev_closeOnOpen handleNext_closeOnOpen)

lemma handleHTTPRequest_closeOnOpen:
  "handleHTTPRequest g parses now request s = Inr (s', es) \<Longrightarrow> closeOnOpen s' = closeOnOpen s"
  by (auto simp: handleHTTPRequest_def refreshSecurityStatus_def updateSecurityStatus_def Let_def
        split: if_splits
        elim!: emit_InrE dest!: dispatch_closeOnOpen)


lemma callbacks_same_state:
  "onDownloadCompleted g file s = Inr (s', es) \<Longrightarrow> state s' = state s \<and> closeOnOpen s' = closeOnOpen s"
  "onClipboardButtonPressed g s = Inr (s', es) \<Longrightarrow> state s' = state s \<and> closeOnOpen s' = closeOnOpen s"
  "OnBeforePopup g alive full sid s = Inr (s', es) \<Longrightarrow> state s' = state s \<and> closeOnOpen s' = closeOnOpen s"
  "onWidgetCursorChanged g cursor s = Inr (s', es) \<Longrightarrow> state s' = state s \<and> closeOnOpen s' = closeOnOpen s"
  "sendViewportToCompressor g s = Inr (s', es) \<Longrightarrow> state s' = state s \<and> closeOnOpen s' = closeOnOpen s"
  "OnPreKeyEvent now shift s = Inr (s', es) \<Longrightarrow> state s' = state s \<and> closeOnOpen s' = closeOnOpen s"
  "onRefreshHotkey now s = Inr (s', es) \<Longrightarrow> state s' = state s \<and> closeOnOpen s' = closeOnOpen s"
  "downloadTimeoutFired now idx s = Inr (s', es) \<Longrightarrow> state s' = state s \<and> closeOnOpen s' = closeOnOpen s"
         apply (auto simp: onDownloadCompleted_def dest!: addIframe_shape)[1]
        apply (auto simp: onClipboardButtonPressed_def dest!: addIframe_shape)[1]
       apply (auto simp: OnBeforePopup_def split: if_splits dest!: addIframe_shape)[1]
      apply (auto simp: onWidgetCursorChanged_def split: if_splits dest!: setHeightSignal_shape)[1]
     apply (auto dest!: sendViewportToCompressor_same)[1]
    apply (auto simp: OnPreKeyEvent_def dest!: navigate_shape)[1]
   apply (auto simp: onRefreshHotkey_def dest!: navigate_shape)[1]
  apply (auto simp: downloadTimeoutFired_def split: if_splits option.splits)[1]
  done

text \<open>
  A session that is Open goes straight to Closed when the browser reports that it has
  closed: \<open>OnBeforeClose\<close> requires Open or Closing and sets Closed. Here a fresh session
  becomes Open in \<open>OnAfterCreated\<close> and the next callback is \<open>OnBeforeClose\<close>.
\<close>

theorem C4_counterexample:
  "map_sum id (state \<circ> fst) (OnAfterCreated (Session_new exampleConsts 0 1 False)) = Inr Open \<and>
   map_sum id (state \<circ> fst)
     (andThen (OnAfterCreated (Session_new exampleConsts 0 1 False)) (OnBeforeClose 1000)) = Inr Closed"
  by (simp add: OnAfterCreated_def OnBeforeClose_def Session_new_def andThen_def emit_def Let_def)

text \<open>
  C4 (amended). Every operation on a session leaves the state alone or takes one of the
  edges Pending to Open (\<open>OnAfterCreated\<close>), Open to Closing (\<open>close()\<close>, also from the
  inactivity timer), Closing to Closed and Open to Closed (\<open>OnBeforeClose\<close>); with
  \<open>closeOnOpen\<close> set, \<open>OnAfterCreated\<close> takes Pending to Open and then \<open>close()\<close> takes Open
  to Closing inside the same callback. A session is constructed Pending, and
  \<open>afterConstruct_\<close> takes it from Pending to Closed when the browser cannot be created.
  Request handling never changes the state.
\<close>

theorem C4_state_transitions:
  "(step g parses op s = Inr (s', es) \<longrightarrow>
      state s' = state s \<or>
      (state s = Pending \<and> state s' = Open \<and> op = OpOnAfterCreated \<and> \<not> closeOnOpen s) \<or>
      (state s = Open \<and> state s' = Closing \<and>
         (op = OpClose \<or> (\<exists>now shortened. op = OpInactivityTimeoutFired now shortened))) \<or>
      (state s = Closing \<and> state s' = Closed \<and> (\<exists>now. op = OpOnBeforeClose now)) \<or>
      (state s = Open \<and> state s' = Closed \<and> (\<exists>now. op = OpOnBeforeClose now)) \<or>
      (state s = Pending \<and> state s' = Closing \<and> op = OpOnAfterCreated \<and> closeOnOpen s \<and>
         OnAfterCreated s = emit [WidgetSetBrowser True] (close (s\<lparr>browser := True, state := Open\<rparr>)))) \<and>
   state (Session_new g now0 sid popup) = Pending \<and>
   (Session_create g now0 sid popup createOk = Inr (s0, es0) \<longrightarrow>
      state s0 = Pending \<or> (state s0 = Closed \<and> \<not> popup \<and> \<not> createOk))"
proof -
  have A: "step g parses op s = Inr (s', es) \<longrightarrow>
      state s' = state s \<or>
      (state s = Pending \<and> state s' = Open \<and> op = OpOnAfterCreated \<and> \<not> closeOnOpen s) \<or>
      (state s = Open \<and> state s' = Closing \<and>
         (op = OpClose \<or> (\<exists>now shortened. op = OpInactivityTimeoutFired now shortened))) \<or>
      (state s = Closing \<and> state s' = Closed \<and> (\<exists>now. op = OpOnBeforeClose now)) \<or>
      (state s = Open \<and> state s' = Closed \<and> (\<exists>now. op = OpOnBeforeClose now)) \<or>
      (state s = Pending \<and> state s' = Closing \<and> op = OpOnAfterCreated \<and> closeOnOpen s \<and>
         OnAfterCreated s = emit [WidgetSetBrowser True] (close (s\<lparr>browser := True, state := Open\<rparr>)))"
  proof (cases op)
    case (OpHandleHTTPRequest now request)
    then show ?thesis by (auto dest: handleHTTPRequest_state)
  next
    case OpClose
    then show ?thesis by (auto simp: close_def split: if_splits)
  next
    case OpOnAfterCreated
    show ?thesis
    proof (intro impI)
      assume "step g parses op s = Inr (s', es)"
      hence r: "OnAfterCreated s = Inr (s', es)" using OpOnAfterCreated by simp
      hence p: "state s = Pending" by (simp add: OnAfterCreated_def split: if_splits)
      show "state s' = state s \<or>
        (state s = Pending \<and> state s' = Open \<and> op = OpOnAfterCreated \<and> \<not> closeOnOpen s) \<or>
        (state s = Open \<and> state s' = Closing \<and>
           (op = OpClose \<or> (\<exists>now shortened. op = OpInactivityTimeoutFired now shortened))) \<or>
        (state s = Closing \<and> state s' = Closed \<and> (\<exists>now. op = OpOnBeforeClose now)) \<or>
        (state s = Open \<and> state s' = Closed \<and> (\<exists>now. op = OpOnBeforeClose now)) \<or>
        (state s = Pending \<and> state s' = Closing \<and> op = OpOnAfterCreated \<and> closeOnOpen s \<and>
           OnAfterCreated s = emit [WidgetSetBrowser True] (close (s\<lparr>browser := True, state := Open\<rparr>)))"
      proof (cases "closeOnOpen s")
        case True
        have e: "OnAfterCreated s =
                 emit [WidgetSetBrowser True] (close (s\<lparr>browser := True, state := Open\<rparr>))"
          using p True by (simp add: OnAfterCreated_def Let_def)
        have "state s' = Closing"
          using r p True by (auto simp: OnAfterCreated_def close_def emit_def Let_def split: if_splits)
        then show ?thesis using p True e OpOnAfterCreated by simp
      next
        case False
        have "state s' = Open"
          using r p False by (auto simp: OnAfterCreated_def emit_def Let_def split: if_splits)
        then show ?thesis using p False OpOnAfterCreated by simp
      qed
    qed
  next
    case (OpOnBeforeClose now)
    then show ?thesis by (auto simp: OnBeforeClose_def split: if_splits)
  next
    case (OpInactivityTimeoutFired now shortened)
    then show ?thesis
      by (auto simp: inactivityTimeoutFired_def close_def Let_def Timeout_clear_def
            split: if_splits option.splits)
  qed (simp_all add: callbacks_same_state)
  have B: "state (Session_new g now0 sid popup) = Pending" by (simp add: Session_new_def)
  have C: "Session_create g now0 sid popup createOk = Inr (s0, es0) \<longrightarrow>
      state s0 = Pending \<or> (state s0 = Closed \<and> \<not> popup \<and> \<not> createOk)"
    by (auto simp: Session_create_def afterConstruct_def Session_new_def Let_def split: if_splits)
  show ?thesis using A B C by blast
qed

theorem C4_witness:
  "step exampleConsts (\<lambda>t. True) OpClose
     ((Session_new exampleConsts 0 1 False)\<lparr>browser := True, state := Open\<rparr>) =
   Inr ((Session_new exampleConsts 0 1 False)\<lparr>browser := True, state := Closing\<rparr>,
        [CloseBrowser, CompressorFlush]) \<and>
   state ((Session_new exampleConsts 0 1 False)\<lparr>browser := True, state := Open\<rparr>) = Open \<and>
   state ((Session_new exampleConsts 0 1 False)\<lparr>browser := True, state := Closing\<rparr>) = Closing"
proof -
  let ?s = "(Session_new exampleConsts 0 1 False)\<lparr>browser := True, state := Open\<rparr>"
  let ?s' = "(Session_new exampleConsts 0 1 False)\<lparr>browser := True, state := Closing\<rparr>"
  have h: "step exampleConsts (\<lambda>t. True) OpClose ?s = Inr (?s', [CloseBrowser, CompressorFlush])"
    by (simp add: close_def Session_new_def)
  from C4_state_transitions[THEN conjunct1, rule_format, OF h]
  have "state ?s' = state ?s \<or> state ?s = Open \<and> state ?s' = Closing"
    by auto
  thus ?thesis using h by (simp add: Session_new_def)
qed

lemma step_closeOnOpen:
  assumes "step g parses op s = Inr (s', es)" and "closeOnOpen s"
  shows "closeOnOpen s'"
proof (cases op)
  case (OpHandleHTTPRequest now request)
  then show ?thesis using assms by (auto dest: handleHTTPRequest_closeOnOpen)
next
  case OpClose
  then show ?thesis using assms by (auto simp: close_def split: if_splits)
next
  case OpOnAfterCreated
  then show ?thesis using assms
    by (auto simp: OnAfterCreated_def close_def emit_def Let_def split: if_splits)
next
  case (OpOnBeforeClose now)
  then show ?thesis using assms by (auto simp: OnBeforeClose_def split: if_splits)
next
  case (OpInactivityTimeoutFired now shortened)
  then show ?thesis using assms
    by (auto simp: inactivityTimeoutFired_def close_def Let_def split: if_splits option.splits)
qed (use assms in \<open>simp_all add: callbacks_same_state\<close>)

lemma run_closeOnOpen:
  "run g parses ops s = Inr (s', es) \<Longrightarrow> closeOnOpen s \<Longrightarrow> closeOnOpen s'"
proof (induction ops arbitrary: s es)
  case Nil
  then show ?case by simp
next
  case (Cons op ops)
  from Cons.prems(1) obtain s1 es1 es2 where
    "step g parses op s = Inr (s1, es1)" "run g parses ops s1 = Inr (s', es2)"
    by (auto elim: andThen_InrE)
  then show ?case using Cons.IH Cons.prems(2) step_closeOnOpen by blast
qed

text \<open>
  C8. \<open>close()\<close> on a Pending session sets \<open>closeOnOpen\<close> and changes nothing else. No
  operation clears the flag, so whatever happens before the browser is ready, the
  \<open>OnAfterCreated\<close> callback of a session that is still Pending sets Open, calls
  \<open>close()\<close> at once and returns with the session Closing: the browser is told to close
  and the session does not rest in Open.
\<close>

theorem C8_close_while_pending:
  assumes "state s = Pending"
  shows "close s = Inr (s\<lparr>closeOnOpen := True\<rparr>, []) \<and>
         (\<forall>ops s1 es1.
            run g parses ops (s\<lparr>closeOnOpen := True\<rparr>) = Inr (s1, es1) \<and> state s1 = Pending \<longrightarrow>
            OnAfterCreated s1 =
              Inr (s1\<lparr>browser := True, state := Closing\<rparr>,
                   [WidgetSetBrowser True, CloseBrowser, CompressorFlush]) \<and>
            state (s1\<lparr>browser := True, state := Closing\<rparr>) = Closing \<and>
            OnAfterCreated s1 =
              emit [WidgetSetBrowser True] (close (s1\<lparr>browser := True, state := Open\<rparr>)))"
proof -
  have a: "close s = Inr (s\<lparr>closeOnOpen := True\<rparr>, [])" using assms by (simp add: close_def)
  have b: "OnAfterCreated s1 =
              Inr (s1\<lparr>browser := True, state := Closing\<rparr>,
                   [WidgetSetBrowser True, CloseBrowser, CompressorFlush]) \<and>
            state (s1\<lparr>browser := True, state := Closing\<rparr>) = Closing \<and>
            OnAfterCreated s1 =
              emit [WidgetSetBrowser True] (close (s1\<lparr>browser := True, state := Open\<rparr>))"
    if "run g parses ops (s\<lparr>closeOnOpen := True\<rparr>) = Inr (s1, es1)" "state s1 = Pending"
    for ops s1 es1
  proof -
    have "closeOnOpen s1" using run_closeOnOpen[OF that(1)] by simp
    thus ?thesis using that(2) by (simp add: OnAfterCreated_def close_def emit_def Let_def)
  qed
  show ?thesis using a b by blast
qed

theorem C8_witness:
  "close (Session_new exampleConsts 0 1 False) =
     Inr ((Session_new exampleConsts 0 1 False)\<lparr>closeOnOpen := True\<rparr>, []) \<and>
   OnAfterCreated ((Session_new exampleConsts 0 1 False)\<lparr>closeOnOpen := True\<rparr>) =
     Inr ((Session_new exampleConsts 0 1 False)\<lparr>closeOnOpen := True, browser := True, state := Closing\<rparr>,
          [WidgetSetBrowser True, CloseBrowser, CompressorFlush])"
proof -
  let ?s = "Session_new exampleConsts 0 1 False"
  have p: "state ?s = Pending" by (simp add: Session_new_def)
  have r: "run exampleConsts (\<lambda>t. True) [OpClose] (?s\<lparr>closeOnOpen := True\<rparr>) =
             Inr (?s\<lparr>closeOnOpen := True\<rparr>, []) \<and> state (?s\<lparr>closeOnOpen := True\<rparr>) = Pending"
    by (simp add: andThen_def close_def Session_new_def)
  note t = C8_close_while_pending[OF p, of exampleConsts "\<lambda>t. True"]
  note a = t[THEN conjunct1]
  note b = t[THEN conjunct2, rule_format, OF r, THEN conjunct1]
  show ?thesis using a b by blast
qed

section \<open>The counters\<close>

lemma countersStep_refl [simp]: "countersStep fit s s"
  by (simp add: countersStep_def)

lemma countersStep_other:
  "curMainIdx s' = curMainIdx s \<Longrightarrow> curImgIdx s' = curImgIdx s \<Longrightarrow>
   curEventIdx s' = curEventIdx s \<Longrightarrow> curDownloadIdx s' = curDownloadIdx s \<Longrightarrow>
   countersStep fit s s'"
  by (simp add: countersStep_def)

lemma word_succ_neq: "(x::uint64) + 1 \<noteq> x"
  by simp

lemma calls_mono:
  "unat startIdx + count_list batch CHR ''/'' < 2 ^ 64 \<Longrightarrow>
   cur \<le> snd (handleEvents_calls startIdx batch cur)"
  using calls_nat[of startIdx batch cur] by (simp add: word_le_nat_alt)

lemma handleImage_counters:
  assumes "handleImage g parses now mainIdx imgIdx immediate width height startEventIdx batch s = Inr (s', es)"
  shows "countersStep (unat startEventIdx + count_list batch CHR ''/'' < 2 ^ 64) s s'"
proof (cases "mainIdx \<noteq> curMainIdx s \<or> imgIdx \<le> curImgIdx s")
  case True
  then show ?thesis using assms by (auto simp: handleImage_def)
next
  case False
  hence "s' = (fst (updateRootViewportSize g width height
                 ((fst (handleEvents parses startEventIdx batch (updateInactivityTimeout now False s)))
                    \<lparr>curImgIdx := imgIdx\<rparr>)))"
    using assms by (auto simp: handleImage_def Let_def)
  hence "curMainIdx s' = curMainIdx s" "curDownloadIdx s' = curDownloadIdx s" "curImgIdx s' = imgIdx"
        "curEventIdx s' = snd (handleEvents_calls startEventIdx batch (curEventIdx s))"
    by (simp_all add: updateRootViewportSize_def handleEvents_def updateInactivityTimeout_def Let_def)
  then show ?thesis using False calls_mono[of startEventIdx batch "curEventIdx s"]
    by (auto simp: countersStep_def)
qed

lemma runIframe_counters: "runIframe now iframe s = Inr (s', es) \<Longrightarrow> countersStep fit s s'"
  by (cases iframe) (auto simp: Let_def countersStep_def split: if_splits)

lemma handleIframe_counters: "handleIframe g now mainIdx s = Inr (s', es) \<Longrightarrow> countersStep fit s s'"
  by (auto simp: handleIframe_def Let_def updateInactivityTimeout_def countersStep_def
        split: if_splits list.splits
        elim!: andThen_InrE dest!: setWidthSignal_shape runIframe_counters[where fit = fit])

lemma handleDownload_counters: "handleDownload downloadIdx s = Inr (s', es) \<Longrightarrow> countersStep fit s s'"
  by (auto simp: handleDownload_def split: option.splits)

lemma handleClose_counters: "handleClose now mainIdx s = Inr (s', es) \<Longrightarrow> countersStep fit s s'"
  by (auto simp: handleClose_def updateInactivityTimeout_def Let_def countersStep_def split: if_splits)

lemma handleMain_counters: "handleMain now s = Inr (s', es) \<Longrightarrow> countersStep fit s s'"
  by (auto simp: handleMain_def Let_def updateInactivityTimeout_def countersStep_def
        split: if_splits elim!: andThen_InrE dest!: navigate_shape)

lemma handlePrev_counters: "handlePrev now s = Inr (s', es) \<Longrightarrow> countersStep fit s s'"
  by (auto simp: handlePrev_def Let_def updateInactivityTimeout_def countersStep_def
        split: if_splits elim!: andThen_InrE dest!: navigate_shape)

lemma handleNext_counters: "handleNext now s = Inr (s', es) \<Longrightarrow> countersStep fit s s'"
  by (auto simp: handleNext_def Let_def updateInactivityTimeout_def countersStep_def
        split: if_splits elim!: andThen_InrE dest!: navigate_shape)

lemma dispatch_counters:
  "dispatch g parses now p s = Inr (s', es) \<Longrightarrow> countersStep (batchFits p) s s'"
  by (induction g parses now p s rule: dispatch.induct)
     (auto dest: handleImage_counters handleIframe_counters handleDownload_counters
        handleClose_counters handleMain_counters handlePrev_counters handleNext_counters)


lemma handleHTTPRequest_counters:
  "handleHTTPRequest g parses now request s = Inr (s', es) \<Longrightarrow>
   countersStep (batchFits (reqPath request)) s s'"
proof -
  assume a: "handleHTTPRequest g parses now request s = Inr (s', es)"
  let ?s0 = "fst (refreshSecurityStatus now s)"
  have c0: "curMainIdx ?s0 = curMainIdx s" "curImgIdx ?s0 = curImgIdx s"
           "curEventIdx ?s0 = curEventIdx s" "curDownloadIdx ?s0 = curDownloadIdx s"
    by (simp_all add: refreshSecurityStatus_def updateSecurityStatus_def)
  have "s' = s \<or> s' = ?s0 \<or> (\<exists>es'. dispatch g parses now (reqPath request) ?s0 = Inr (s', es'))"
    using a by (auto simp: handleHTTPRequest_def refreshSecurityStatus_def Let_def split: if_splits
          elim!: emit_InrE)
  moreover have "countersStep (batchFits (reqPath request)) s ?s0"
    using c0 by (intro countersStep_other)
  moreover have "countersStep (batchFits (reqPath request)) s s'"
    if "dispatch g parses now (reqPath request) ?s0 = Inr (s', es')" for es'
    using dispatch_counters[OF that] c0 unfolding countersStep_def by metis
  ultimately show ?thesis by auto
qed

lemma step_counters:
  assumes "step g parses op s = Inr (s', es)"
  shows "countersStep (eventsFit op) s s'"
proof (cases op)
  case (OpHandleHTTPRequest now request)
  then show ?thesis using assms handleHTTPRequest_counters by simp
next
  case OpClose
  then show ?thesis using assms by (auto simp: close_def countersStep_def split: if_splits)
next
  case OpOnAfterCreated
  then show ?thesis using assms
    by (auto simp: OnAfterCreated_def close_def emit_def Let_def countersStep_def split: if_splits)
next
  case (OpOnBeforeClose now)
  then show ?thesis using assms
    by (auto simp: OnBeforeClose_def updateInactivityTimeout_def Let_def countersStep_def split: if_splits)
next
  case (OpInactivityTimeoutFired now shortened)
  then show ?thesis using assms
    by (auto simp: inactivityTimeoutFired_def close_def Let_def countersStep_def
          split: if_splits option.splits)
next
  case (OpDownloadTimeoutFired now idx)
  then show ?thesis using assms
    by (auto simp: downloadTimeoutFired_def countersStep_def split: if_splits option.splits)
next
  case (OpOnDownloadCompleted dl)
  then show ?thesis using assms
    by (auto simp: onDownloadCompleted_def countersStep_def dest!: addIframe_shape)
next
  case OpOnClipboardButtonPressed
  then show ?thesis using assms
    by (auto simp: onClipboardButtonPressed_def countersStep_def dest!: addIframe_shape)
next
  case (OpOnBeforePopup alive full sid)
  then show ?thesis using assms
    by (auto simp: OnBeforePopup_def countersStep_def split: if_splits dest!: addIframe_shape)
next
  case (OpOnWidgetCursorChanged cursor)
  then show ?thesis using assms
    by (auto simp: onWidgetCursorChanged_def countersStep_def split: if_splits
          dest!: setHeightSignal_shape)
next
  case OpViewDirty
  then show ?thesis using assms by (auto dest!: sendViewportToCompressor_same)
next
  case (OpOnPreKeyEvent now shift)
  then show ?thesis using assms
    by (auto simp: OnPreKeyEvent_def countersStep_def dest!: navigate_shape)
next
  case (OpRefreshHotkey now)
  then show ?thesis using assms
    by (auto simp: onRefreshHotkey_def countersStep_def dest!: navigate_shape)
qed

lemma word_le_succ: "unat (x::uint64) + 1 < 2 ^ 64 \<Longrightarrow> x \<le> x + 1"
  by (simp add: word_le_nat_alt unat_inc)


text \<open>
  After two loads of the main page and an accepted image poll with \<open>imgIdx = 5\<close> and two
  events the counters are \<open>mainIdx = 1\<close>, \<open>imgIdx = 5\<close>, \<open>eventIdx = 2\<close>. The close
  endpoint then sets \<open>imgIdx\<close> and \<open>eventIdx\<close> back to 0. An image poll whose
  \<open>startEventIdx\<close> is \<open>2^64 - 1\<close> instead wraps \<open>eventIdx\<close> around from 2 to 0.
\<close>

theorem C5_counterexample:
  "map_sum id (\<lambda>r. (curMainIdx (fst r), curImgIdx (fst r), curEventIdx (fst r)))
     (run exampleConsts (\<lambda>t. True)
        [OpHandleHTTPRequest 0 (GET MainPath),
         OpHandleHTTPRequest 0 (GET MainPath),
         OpHandleHTTPRequest 0
           (GET (ImagePath (Some 1) (Some 5) (Some 1) (Some 800) (Some 600) (Some 0) ''A/B/''))]
        (Session_new exampleConsts 0 1 False)) = Inr (1, 5, 2) \<and>
   map_sum id (\<lambda>r. (curMainIdx (fst r), curImgIdx (fst r), curEventIdx (fst r)))
     (run exampleConsts (\<lambda>t. True)
        [OpHandleHTTPRequest 0 (GET MainPath),
         OpHandleHTTPRequest 0 (GET MainPath),
         OpHandleHTTPRequest 0
           (GET (ImagePath (Some 1) (Some 5) (Some 1) (Some 800) (Some 600) (Some 0) ''A/B/'')),
         OpHandleHTTPRequest 0 (GET (ClosePath (Some 1)))]
        (Session_new exampleConsts 0 1 False)) = Inr (2, 0, 0) \<and>
   map_sum id (\<lambda>r. (curMainIdx (fst r), curImgIdx (fst r), curEventIdx (fst r)))
     (run exampleConsts (\<lambda>t. True)
        [OpHandleHTTPRequest 0 (GET MainPath),
         OpHandleHTTPRequest 0 (GET MainPath),
         OpHandleHTTPRequest 0
           (GET (ImagePath (Some 1) (Some 5) (Some 1) (Some 800) (Some 600) (Some 0) ''A/B/'')),
         OpHandleHTTPRequest 0
           (GET (ImagePath (Some 1) (Some 6) (Some 1) (Some 800) (Some 600)
                   (Some 18446744073709551615) ''A/''))]
        (Session_new exampleConsts 0 1 False)) = Inr (1, 6, 0)"
  by (simp add: eval_defs)

text \<open>
  C5 (amended). Across every operation \<open>mainIdx\<close> and \<open>downloadIdx\<close> never decrease
  (short of wrapping around at \<open>2^64\<close>). \<open>imgIdx\<close> and \<open>eventIdx\<close> never decrease while
  \<open>mainIdx\<close> stays the same (\<open>eventIdx\<close> provided the sequence numbers of the event batch
  stay below \<open>2^64\<close>); an operation that changes \<open>mainIdx\<close> advances it by one and resets
  \<open>imgIdx\<close> and \<open>eventIdx\<close> to 0.
\<close>

theorem C5_counters:
  assumes "step g parses op s = Inr (s', es)"
  shows "(unat (curMainIdx s) + 1 < 2 ^ 64 \<longrightarrow> curMainIdx s \<le> curMainIdx s') \<and>
         (unat (curDownloadIdx s) + 1 < 2 ^ 64 \<longrightarrow> curDownloadIdx s \<le> curDownloadIdx s') \<and>
         (curMainIdx s' = curMainIdx s \<longrightarrow> curImgIdx s \<le> curImgIdx s') \<and>
         (curMainIdx s' = curMainIdx s \<and> eventsFit op \<longrightarrow> curEventIdx s \<le> curEventIdx s') \<and>
         (curMainIdx s' \<noteq> curMainIdx s \<longrightarrow>
            curMainIdx s' = curMainIdx s + 1 \<and> curImgIdx s' = 0 \<and> curEventIdx s' = 0)"
  using step_counters[OF assms] word_le_succ[of "curMainIdx s"] word_le_succ[of "curDownloadIdx s"]
  unfolding countersStep_def by auto

theorem C5_witness:
  "\<exists>s' es.
     step exampleConsts (\<lambda>t. True)
       (OpHandleHTTPRequest 0
          (GET (ImagePath (Some 0) (Some 3) (Some 1) (Some 800) (Some 600) (Some 0) ''A/B/'')))
       (Session_new exampleConsts 0 1 False) = Inr (s', es) \<and>
     curMainIdx s' = 0 \<and> curImgIdx s' = 3 \<and> curEventIdx s' = 2 \<and>
     curMainIdx (Session_new exampleConsts 0 1 False) \<le> curMainIdx s' \<and>
     curImgIdx (Session_new exampleConsts 0 1 False) \<le> curImgIdx s' \<and>
     curEventIdx (Session_new exampleConsts 0 1 False) \<le> curEventIdx s'"
proof -
  let ?s = "Session_new exampleConsts 0 1 False"
  let ?op = "OpHandleHTTPRequest 0
          (GET (ImagePath (Some 0) (Some 3) (Some 1) (Some 800) (Some 600) (Some 0) ''A/B/''))"
  have "\<exists>s' es. step exampleConsts (\<lambda>t. True) ?op ?s = Inr (s', es) \<and>
          curMainIdx s' = 0 \<and> curImgIdx s' = 3 \<and> curEventIdx s' = 2"
    by (simp add: eval_defs)
  then obtain s' es where h: "step exampleConsts (\<lambda>t. True) ?op ?s = Inr (s', es)"
    and v: "curMainIdx s' = 0" "curImgIdx s' = 3" "curEventIdx s' = 2" by blast
  have z: "curMainIdx ?s = 0" by (simp add: Session_new_def)
  have f: "eventsFit ?op" by (simp add: GET_def)
  have u: "unat (curMainIdx ?s) + 1 < 2 ^ 64" by (simp add: z)
  note t = C5_counters[OF h]
  have "curMainIdx ?s \<le> curMainIdx s'" using t u by blast
  moreover have "curImgIdx ?s \<le> curImgIdx s'" using t v(1) z by simp
  moreover have "curEventIdx ?s \<le> curEventIdx s'" using t v(1) z f by simp
  ultimately show ?thesis using h v by blast
qed

section \<open>Navigation debounce\<close>

lemma browser_updateInactivityTimeout [simp]:
  "browser (updateInactivityTimeout now shortened s) = browser s"
  by (simp add: updateInactivityTimeout_def Let_def)

lemma browser_handleEvents [simp]: "browser (fst (handleEvents parses startIdx batch s)) = browser s"
  by (simp add: handleEvents_def Let_def)

lemma browser_updateRootViewportSize [simp]: "browser (fst (updateRootViewportSize g w h s)) = browser s"
  by (simp add: updateRootViewportSize_def Let_def)

lemma runIframe_browser: "runIframe now iframe s = Inr (s', es) \<Longrightarrow> browser s' = browser s"
  by (cases iframe) (auto simp: Let_def split: if_splits)

lemma handleImage_browser:
  "handleImage g parses now mainIdx imgIdx immediate width height startEventIdx batch s = Inr (s', es)
   \<Longrightarrow> browser s' = browser s"
  by (auto simp: handleImage_def Let_def split: if_splits)

lemma handleIframe_browser: "handleIframe g now mainIdx s = Inr (s', es) \<Longrightarrow> browser s' = browser s"
  by (auto simp: handleIframe_def Let_def split: if_splits list.splits
        elim!: andThen_InrE dest!: setWidthSignal_shape runIframe_browser)

lemma handleDownload_browser: "handleDownload downloadIdx s = Inr (s', es) \<Longrightarrow> browser s' = browser s"
  by (auto simp: handleDownload_def split: option.splits)

lemma handleClose_browser: "handleClose now mainIdx s = Inr (s', es) \<Longrightarrow> browser s' = browser s"
  by (auto simp: handleClose_def split: if_splits)

lemma handleMain_browser: "handleMain now s = Inr (s', es) \<Longrightarrow> browser s' = browser s"
  by (auto simp: handleMain_def Let_def split: if_splits elim!: andThen_InrE dest!: navigate_shape)

lemma handlePrev_browser: "handlePrev now s = Inr (s', es) \<Longrightarrow> browser s' = browser s"
  by (auto simp: handlePrev_def Let_def split: if_splits elim!: andThen_InrE dest!: navigate_shape)

lemma handleNext_browser: "handleNext now s = Inr (s', es) \<Longrightarrow> browser s' = browser s"
  by (auto simp: handleNext_def Let_def split: if_splits elim!: andThen_InrE dest!: navigate_shape)

lemma dispatch_browser: "dispatch g parses now p s = Inr (s', es) \<Longrightarrow> browser s' = browser s"
  by (induction g parses now p s rule: dispatch.induct)
     (auto dest: handleImage_browser handleIframe_browser handleDownload_browser handleClose_browser
        handleMain_browser handlePrev_browser handleNext_browser)

lemma handleHTTPRequest_browser:
  "handleHTTPRequest g parses now request s = Inr (s', es) \<Longrightarrow> browser s' = browser s"
  by (auto simp: handleHTTPRequest_def refreshSecurityStatus_def updateSecurityStatus_def Let_def
        split: if_splits
        elim!: emit_InrE dest!: dispatch_browser)

lemma navCommands_simps [simp]:
  "navCommands [] = []"
  "navCommands (e # es) = (if isNavCommand e then e # navCommands es else navCommands es)"
  "navCommands (es @ es') = navCommands es @ navCommands es'"
  by (simp_all add: navCommands_def)

lemma navCommands_handleEvents [simp]:
  "navCommands (snd (handleEvents parses startIdx batch s)) = []"
  by (auto simp: navCommands_def filter_empty_conv handleEvents_def Let_def eventEffects_def
        processEvent_def split: if_splits)

lemma navCommands_updateRootViewportSize [simp]:
  "navCommands (snd (updateRootViewportSize g w h s)) = []"
  by (simp add: updateRootViewportSize_def Let_def)

lemma last_updateInactivityTimeout [simp]:
  "lastNavigateOperationTime (updateInactivityTimeout now shortened s) = lastNavigateOperationTime s"
  by (simp add: updateInactivityTimeout_def Let_def)

lemma last_handleEvents [simp]:
  "lastNavigateOperationTime (fst (handleEvents parses startIdx batch s)) = lastNavigateOperationTime s"
  by (simp add: handleEvents_def Let_def)

lemma last_updateRootViewportSize [simp]:
  "lastNavigateOperationTime (fst (updateRootViewportSize g w h s)) = lastNavigateOperationTime s"
  by (simp add: updateRootViewportSize_def Let_def)

lemma fields_updateInactivityTimeout [simp]:
  "curMainIdx (updateInactivityTimeout now shortened s) = curMainIdx s"
  "prevNextClicked (updateInactivityTimeout now shortened s) = prevNextClicked s"
  "preMainVisited (updateInactivityTimeout now shortened s) = preMainVisited s"
  by (simp_all add: updateInactivityTimeout_def Let_def)

lemma sendViewportToCompressor_nav:
  "sendViewportToCompressor g s = Inr (s', es) \<Longrightarrow> navOutcome None s s' es"
  by (auto simp: sendViewportToCompressor_def navOutcome_def split: if_splits sum.splits)

lemma setWidthSignal_nav: "setWidthSignal g w s = Inr (s', es) \<Longrightarrow> navOutcome None s s' es"
  by (auto simp: setWidthSignal_def navOutcome_def split: if_splits
        dest!: sendViewportToCompressor_nav)

lemma setHeightSignal_nav: "setHeightSignal g h s = Inr (s', es) \<Longrightarrow> navOutcome None s s' es"
  by (auto simp: setHeightSignal_def navOutcome_def split: if_splits
        dest!: sendViewportToCompressor_nav)

lemma addIframe_nav: "addIframe g iframe s = Inr (s', es) \<Longrightarrow> navOutcome None s s' es"
  by (auto simp: addIframe_def navOutcome_def dest!: setWidthSignal_nav)

lemma runIframe_nav: "runIframe now iframe s = Inr (s', es) \<Longrightarrow> navOutcome None s s' es"
  by (cases iframe) (auto simp: Let_def navOutcome_def split: if_splits)

lemma navigate_nav:
  "-1 \<le> d \<Longrightarrow> d \<le> 1 \<Longrightarrow> navigate t d s = Inr (s', es) \<Longrightarrow> navOutcome (Some (t, d)) s s' es"
  by (auto simp: navigate_def navOutcome_def navCommand_def split: if_splits)

lemma handleImage_nav:
  "handleImage g parses now mainIdx imgIdx immediate width height startEventIdx batch s = Inr (s', es)
   \<Longrightarrow> navOutcome None s s' es"
  by (auto simp: handleImage_def Let_def navOutcome_def outdatedRequest_def split: if_splits)

lemma handleIframe_nav: "handleIframe g now mainIdx s = Inr (s', es) \<Longrightarrow> navOutcome None s s' es"
  by (auto simp: handleIframe_def Let_def navOutcome_def outdatedRequest_def
        split: if_splits list.splits elim!: andThen_InrE dest!: setWidthSignal_nav runIframe_nav)

lemma handleDownload_nav: "handleDownload downloadIdx s = Inr (s', es) \<Longrightarrow> navOutcome None s s' es"
  by (auto simp: handleDownload_def navOutcome_def split: option.splits)

lemma handleClose_nav: "handleClose now mainIdx s = Inr (s', es) \<Longrightarrow> navOutcome None s s' es"
  by (auto simp: handleClose_def navOutcome_def outdatedRequest_def split: if_splits)

lemma handleMain_nav:
  "handleMain now s = Inr (s', es) \<Longrightarrow>
   navOutcome (map_option (Pair now) (pathTrigger MainPath s)) s s' es"
  by (auto simp: handleMain_def Let_def navOutcome_def navigate_def navCommand_def andThen_def
        split: if_splits)

lemma handlePrev_nav:
  "handlePrev now s = Inr (s', es) \<Longrightarrow>
   navOutcome (map_option (Pair now) (pathTrigger PrevPath s)) s s' es"
  by (auto simp: handlePrev_def Let_def navOutcome_def navigate_def navCommand_def andThen_def
        split: if_splits)

lemma handleNext_nav:
  "handleNext now s = Inr (s', es) \<Longrightarrow>
   navOutcome (map_option (Pair now) (pathTrigger NextPath s)) s s' es"
  by (auto simp: handleNext_def Let_def navOutcome_def navigate_def navCommand_def andThen_def
        split: if_splits)

lemma invalid_nav: "navOutcome None s s [invalidRequest]"
  by (simp add: navOutcome_def invalidRequest_def)

lemma dispatch_nav:
  "dispatch g parses now p s = Inr (s', es) \<Longrightarrow>
   navOutcome (map_option (Pair now) (pathTrigger p s)) s s' es"
  by (induction g parses now p s rule: dispatch.induct)
     (auto simp: invalid_nav simp del: pathTrigger.simps(1-3)
        dest: handleImage_nav handleIframe_nav handleDownload_nav handleClose_nav
        handleMain_nav handlePrev_nav handleNext_nav)


lemma navOutcome_prefix:
  assumes "navOutcome trigger s0 s' es" "navCommands e0 = []"
    "lastNavigateOperationTime s0 = lastNavigateOperationTime s" "browser s0 = browser s"
  shows "navOutcome trigger s s' (e0 @ es)"
  using assms by (auto simp: navOutcome_def split: option.splits)

lemma refresh_nav_fields [simp]:
  "lastNavigateOperationTime (fst (refreshSecurityStatus now s)) = lastNavigateOperationTime s"
  "browser (fst (refreshSecurityStatus now s)) = browser s"
  "navCommands (snd (refreshSecurityStatus now s)) = []"
  "pathTrigger p (fst (refreshSecurityStatus now s)) = pathTrigger p s"
  by (cases p; simp add: refreshSecurityStatus_def updateSecurityStatus_def)+

lemma handleHTTPRequest_nav:
  assumes "handleHTTPRequest g parses now request s = Inr (s', es)"
  shows "navOutcome (navTrigger (OpHandleHTTPRequest now request) s) s s' es"
proof (cases "state s = Closing \<or> state s = Closed")
  case True
  then show ?thesis using assms
    by (cases "state s") (auto simp: handleHTTPRequest_def navOutcome_def)
next
  case False
  hence live: "state s = Pending \<or> state s = Open" by (cases "state s") auto
  let ?s0 = "fst (refreshSecurityStatus now s)" and ?e0 = "snd (refreshSecurityStatus now s)"
  show ?thesis
  proof (cases "reqMethod request = ''GET''")
    case True
    from assms False True obtain es' where
      d: "dispatch g parses now (reqPath request) ?s0 = Inr (s', es')" and e: "es = ?e0 @ es'"
      by (auto simp: handleHTTPRequest_def Let_def elim!: emit_InrE)
    have "navOutcome (map_option (Pair now) (pathTrigger (reqPath request) s)) s s' (?e0 @ es')"
      using navOutcome_prefix[OF dispatch_nav[OF d], of ?e0 s] by simp
    then show ?thesis using live True e by simp
  next
    case notget: False
    then show ?thesis using assms False
      by (auto simp: handleHTTPRequest_def Let_def navOutcome_def invalidRequest_def emit_def
            split: prod.splits)
  qed
qed

lemma step_nav:
  assumes "step g parses op s = Inr (s', es)"
  shows "navOutcome (navTrigger op s) s s' es"
proof (cases op)
  case (OpHandleHTTPRequest now request)
  then show ?thesis using assms handleHTTPRequest_nav by simp
next
  case OpClose
  then show ?thesis using assms by (auto simp: close_def navOutcome_def split: if_splits)
next
  case OpOnAfterCreated
  then show ?thesis using assms
    by (auto simp: OnAfterCreated_def close_def emit_def Let_def navOutcome_def split: if_splits)
next
  case (OpOnBeforeClose now)
  then show ?thesis using assms
    by (auto simp: OnBeforeClose_def navOutcome_def split: if_splits)
next
  case (OpInactivityTimeoutFired now shortened)
  then show ?thesis using assms
    by (auto simp: inactivityTimeoutFired_def close_def Let_def navOutcome_def
          split: if_splits option.splits)
next
  case (OpDownloadTimeoutFired now i)
  then show ?thesis using assms
    by (auto simp: downloadTimeoutFired_def navOutcome_def split: if_splits option.splits)
next
  case (OpOnDownloadCompleted dl)
  then show ?thesis using assms by (auto simp: onDownloadCompleted_def dest!: addIframe_nav)
next
  case OpOnClipboardButtonPressed
  then show ?thesis using assms by (auto simp: onClipboardButtonPressed_def dest!: addIframe_nav)
next
  case (OpOnBeforePopup alive full sid)
  then show ?thesis using assms
    by (auto simp: OnBeforePopup_def navOutcome_def split: if_splits dest!: addIframe_nav)
next
  case (OpOnWidgetCursorChanged cursor)
  then show ?thesis using assms
    by (auto simp: onWidgetCursorChanged_def split: if_splits dest!: setHeightSignal_nav)
next
  case OpViewDirty
  then show ?thesis using assms by (auto dest!: sendViewportToCompressor_nav)
next
  case (OpOnPreKeyEvent now shift)
  then show ?thesis using assms navigate_nav[of "if shift then 1 else -1" now s s' es]
    by (auto simp: OnPreKeyEvent_def)
next
  case (OpRefreshHotkey now)
  then show ?thesis using assms navigate_nav[of 0 now s s' es]
    by (auto simp: onRefreshHotkey_def)
qed

lemma trigger_keeps_browser:
  assumes "navTrigger op s = Some x" "step g parses op s = Inr (s', es)"
  shows "browser s' = browser s"
proof (cases op)
  case (OpHandleHTTPRequest now request)
  then show ?thesis using assms handleHTTPRequest_browser by simp
next
  case (OpOnPreKeyEvent now shift)
  then show ?thesis using assms by (auto simp: OnPreKeyEvent_def dest!: navigate_shape)
next
  case (OpRefreshHotkey now)
  then show ?thesis using assms by (auto simp: onRefreshHotkey_def dest!: navigate_shape)
qed (use assms in simp_all)

lemma pair_nav:
  assumes "navTrigger op1 s = Some (t1, d1)" "step g parses op1 s = Inr (s1, es1)"
      and "navTrigger op2 s1 = Some (t2, d2)" "step g parses op2 s1 = Inr (s2, es2)"
      and "browser s" "200 < duration_ms (t1 - lastNavigateOperationTime s)"
  shows "navCommands (es1 @ es2) =
           (if duration_ms (t2 - t1) \<le> 200 then [navCommand d1] else [navCommand d1, navCommand d2])"
proof -
  have a: "navCommands es1 = [navCommand d1]" "lastNavigateOperationTime s1 = t1"
    using step_nav[OF assms(2)] assms(1,5,6) by (auto simp: navOutcome_def)
  have b: "browser s1" using trigger_keeps_browser[OF assms(1,2)] assms(5) by simp
  have c: "navCommands es2 = (if duration_ms (t2 - t1) \<le> 200 then [] else [navCommand d2])"
    using step_nav[OF assms(4)] assms(3) a(2) b by (auto simp: navOutcome_def)
  show ?thesis using a(1) c by simp
qed

text \<open>
  The debounce clock starts at construction. On a session constructed at time 0 and
  opened, backspace at 100 ms and again at 400 ms, 300 ms apart, issues one command:
  the first is within 200 ms of the construction. Backspace at 100 ms and 150 ms issues
  none. On a session that has no browser handle yet, backspace at 1.0 s and 1.3 s
  issues none.
\<close>

theorem C9_counterexample:
  "map_sum id (\<lambda>r. navCommands (snd r))
     (run exampleConsts (\<lambda>t. True)
        [OpOnAfterCreated, OpOnPreKeyEvent 100000000 False, OpOnPreKeyEvent 400000000 False]
        (Session_new exampleConsts 0 1 False)) = Inr [GoBack] \<and>
   map_sum id (\<lambda>r. navCommands (snd r))
     (run exampleConsts (\<lambda>t. True)
        [OpOnAfterCreated, OpOnPreKeyEvent 100000000 False, OpOnPreKeyEvent 150000000 False]
        (Session_new exampleConsts 0 1 False)) = Inr [] \<and>
   map_sum id (\<lambda>r. navCommands (snd r))
     (run exampleConsts (\<lambda>t. True)
        [OpOnPreKeyEvent 1000000000 False, OpOnPreKeyEvent 1300000000 False]
        (Session_new exampleConsts 0 1 False)) = Inr []"
  by (simp add: eval_defs OnAfterCreated_def OnPreKeyEvent_def)

text \<open>
  C9 (amended). Every operation of the session that triggers a navigation (the backspace
  shortcut for back and forward, the refresh hotkey, and the main, prev and next page
  requests that call \<open>navigate_\<close>) is suppressed when it comes within 200 ms of the last
  navigate operation, a clock that starts at construction, and then leaves the clock;
  otherwise it sets the clock and, when the browser handle is present, issues its
  command. No other operation issues a navigation command. So for two consecutive
  triggers on a session with a browser handle, the first more than 200 ms after the
  last navigate operation: the first command is issued and the second is suppressed if
  and only if it comes within 200 ms of the first; 50 ms apart they produce exactly one
  handle-level command, 300 ms apart two.
\<close>

theorem C9_navigate_debounce:
  "(step g parses op s = Inr (s', es) \<longrightarrow> navOutcome (navTrigger op s) s s' es) \<and>
   (navTrigger op1 s = Some (t1, d1) \<and> step g parses op1 s = Inr (s1, es1) \<and>
    navTrigger op2 s1 = Some (t2, d2) \<and> step g parses op2 s1 = Inr (s2, es2) \<and>
    browser s \<and> 200 < duration_ms (t1 - lastNavigateOperationTime s) \<longrightarrow>
      navCommands (es1 @ es2) =
        (if duration_ms (t2 - t1) \<le> 200 then [navCommand d1] else [navCommand d1, navCommand d2]) \<and>
      (t2 = t1 + 50 * 1000000 \<longrightarrow> navCommands (es1 @ es2) = [navCommand d1]) \<and>
      (t2 = t1 + 300 * 1000000 \<longrightarrow> navCommands (es1 @ es2) = [navCommand d1, navCommand d2])) \<and>
   step g parses (OpOnPreKeyEvent t shift) s =
     (if duration_ms (t - lastNavigateOperationTime s) \<le> 200 then Inr (s, [])
      else Inr (s\<lparr>lastNavigateOperationTime := t\<rparr>,
                if browser s then [navCommand (if shift then 1 else -1)] else [])) \<and>
   step g parses (OpRefreshHotkey t) s =
     (if duration_ms (t - lastNavigateOperationTime s) \<le> 200 then Inr (s, [])
      else Inr (s\<lparr>lastNavigateOperationTime := t\<rparr>, if browser s then [navCommand 0] else []))"
proof -
  have a: "step g parses op s = Inr (s', es) \<longrightarrow> navOutcome (navTrigger op s) s s' es"
    using step_nav by blast
  have b: "navCommands (es1 @ es2) =
        (if duration_ms (t2 - t1) \<le> 200 then [navCommand d1] else [navCommand d1, navCommand d2]) \<and>
      (t2 = t1 + 50 * 1000000 \<longrightarrow> navCommands (es1 @ es2) = [navCommand d1]) \<and>
      (t2 = t1 + 300 * 1000000 \<longrightarrow> navCommands (es1 @ es2) = [navCommand d1, navCommand d2])"
    if h: "navTrigger op1 s = Some (t1, d1) \<and> step g parses op1 s = Inr (s1, es1) \<and>
    navTrigger op2 s1 = Some (t2, d2) \<and> step g parses op2 s1 = Inr (s2, es2) \<and>
    browser s \<and> 200 < duration_ms (t1 - lastNavigateOperationTime s)"
  proof -
    have p: "navCommands (es1 @ es2) =
        (if duration_ms (t2 - t1) \<le> 200 then [navCommand d1] else [navCommand d1, navCommand d2])"
      using h pair_nav[of op1 s t1 d1 g parses s1 es1 op2 t2 d2 s2 es2] by blast
    have "duration_ms (t1 + 50 * 1000000 - t1) \<le> 200" "\<not> duration_ms (t1 + 300 * 1000000 - t1) \<le> 200"
      by (simp_all add: duration_ms_def)
    thus ?thesis using p by auto
  qed
  have c: "step g parses (OpOnPreKeyEvent t shift) s =
     (if duration_ms (t - lastNavigateOperationTime s) \<le> 200 then Inr (s, [])
      else Inr (s\<lparr>lastNavigateOperationTime := t\<rparr>,
                if browser s then [navCommand (if shift then 1 else -1)] else []))"
    by (simp add: OnPreKeyEvent_def navigate_def navCommand_def)
  have d: "step g parses (OpRefreshHotkey t) s =
     (if duration_ms (t - lastNavigateOperationTime s) \<le> 200 then Inr (s, [])
      else Inr (s\<lparr>lastNavigateOperationTime := t\<rparr>, if browser s then [navCommand 0] else []))"
    by (simp add: onRefreshHotkey_def navigate_def navCommand_def)
  show ?thesis using a b c d by blast
qed

theorem C9_witness:
  "step exampleConsts (\<lambda>t. True) (OpOnPreKeyEvent 1000000000 False)
     ((Session_new exampleConsts 0 1 False)\<lparr>browser := True, state := Open\<rparr>) =
     Inr ((Session_new exampleConsts 0 1 False)
            \<lparr>browser := True, state := Open, lastNavigateOperationTime := 1000000000\<rparr>, [GoBack]) \<and>
   step exampleConsts (\<lambda>t. True) (OpOnPreKeyEvent 1050000000 False)
     ((Session_new exampleConsts 0 1 False)
        \<lparr>browser := True, state := Open, lastNavigateOperationTime := 1000000000\<rparr>) =
     Inr ((Session_new exampleConsts 0 1 False)
            \<lparr>browser := True, state := Open, lastNavigateOperationTime := 1000000000\<rparr>, []) \<and>
   navCommands ([GoBack] @ []) = [GoBack] \<and>
   step exampleConsts (\<lambda>t. True) (OpRefreshHotkey 1300000000)
     ((Session_new exampleConsts 0 1 False)
        \<lparr>browser := True, state := Open, lastNavigateOperationTime := 1000000000\<rparr>) =
     Inr ((Session_new exampleConsts 0 1 False)
            \<lparr>browser := True, state := Open, lastNavigateOperationTime := 1300000000\<rparr>, [Reload]) \<and>
   navCommands ([GoBack] @ [Reload]) = [GoBack, Reload]"
proof -
  let ?s = "(Session_new exampleConsts 0 1 False)\<lparr>browser := True, state := Open\<rparr>"
  let ?s1 = "(Session_new exampleConsts 0 1 False)
        \<lparr>browser := True, state := Open, lastNavigateOperationTime := 1000000000\<rparr>"
  let ?s2 = "(Session_new exampleConsts 0 1 False)
        \<lparr>browser := True, state := Open, lastNavigateOperationTime := 1300000000\<rparr>"
  let ?k1 = "OpOnPreKeyEvent 1000000000 False" and ?k2 = "OpOnPreKeyEvent 1050000000 False"
  let ?k3 = "OpRefreshHotkey 1300000000"
  note T = C9_navigate_debounce[where g = exampleConsts and parses = "\<lambda>t. True"]
  have b: "browser ?s" and l: "200 < duration_ms (1000000000 - lastNavigateOperationTime ?s)"
    by (simp_all add: Session_new_def duration_ms_def)
  have h1: "step exampleConsts (\<lambda>t. True) ?k1 ?s = Inr (?s1, [GoBack])"
    using T[where t = 1000000000 and shift = False and s = ?s, THEN conjunct2, THEN conjunct2,
            THEN conjunct1]
    by (simp add: Session_new_def duration_ms_def navCommand_def)
  have h2: "step exampleConsts (\<lambda>t. True) ?k2 ?s1 = Inr (?s1, [])"
    using T[where t = 1050000000 and shift = False and s = ?s1, THEN conjunct2, THEN conjunct2,
            THEN conjunct1]
    by (simp add: duration_ms_def)
  have h3: "step exampleConsts (\<lambda>t. True) ?k3 ?s1 = Inr (?s2, [Reload])"
    using T[where t = 1300000000 and s = ?s1, THEN conjunct2, THEN conjunct2, THEN conjunct2]
    by (simp add: duration_ms_def navCommand_def)
  have n1: "navTrigger ?k1 ?s = Some (1000000000, -1)" by simp
  have n2: "navTrigger ?k2 ?s1 = Some (1050000000, -1)" by simp
  have n3: "navTrigger ?k3 ?s1 = Some (1300000000, 0)" by simp
  have p1: "navCommands ([GoBack] @ []) = [GoBack]"
    using T[where ?op1.0 = ?k1 and s = ?s and ?op2.0 = ?k2, THEN conjunct2, THEN conjunct1,
            rule_format, OF conjI[OF n1 conjI[OF h1 conjI[OF n2 conjI[OF h2 conjI[OF b l]]]]]]
    by (simp add: duration_ms_def navCommand_def)
  have p2: "navCommands ([GoBack] @ [Reload]) = [GoBack, Reload]"
    using T[where ?op1.0 = ?k1 and s = ?s and ?op2.0 = ?k3, THEN conjunct2, THEN conjunct1,
            rule_format, OF conjI[OF n1 conjI[OF h1 conjI[OF n3 conjI[OF h3 conjI[OF b l]]]]]]
    by (simp add: duration_ms_def navCommand_def)
  show ?thesis using h1 h2 h3 p1 p2 by blast
qed

section \<open>The image endpoint\<close>

lemma refreshSecurityStatus_cases:
  "refreshSecurityStatus now s = (s, []) \<or>
   refreshSecurityStatus now s = (s\<lparr>lastSecurityStatusUpdateTime := now\<rparr>, [SetSecurityStatus])"
  by (simp add: refreshSecurityStatus_def updateSecurityStatus_def)

lemma refresh_fields [simp]:
  "state (fst (refreshSecurityStatus now s)) = state s"
  "curMainIdx (fst (refreshSecurityStatus now s)) = curMainIdx s"
  "curImgIdx (fst (refreshSecurityStatus now s)) = curImgIdx s"
  "iframeQueue (fst (refreshSecurityStatus now s)) = iframeQueue s"
  "downloads (fst (refreshSecurityStatus now s)) = downloads s"
  "inactivityTimeoutLong (fst (refreshSecurityStatus now s)) = inactivityTimeoutLong s"
  "inactivityTimeoutShort (fst (refreshSecurityStatus now s)) = inactivityTimeoutShort s"
  by (simp_all add: refreshSecurityStatus_def updateSecurityStatus_def)

lemma refresh_effects: "set (snd (refreshSecurityStatus now s)) \<subseteq> {SetSecurityStatus}"
  by (simp add: refreshSecurityStatus_def updateSecurityStatus_def)

lemma handleHTTPRequest_live:
  "state s = Pending \<or> state s = Open \<Longrightarrow>
   handleHTTPRequest g parses now (GET p) s =
     emit (snd (refreshSecurityStatus now s)) (dispatch g parses now p (fst (refreshSecurityStatus now s)))"
  by (auto simp: handleHTTPRequest_def GET_def Let_def)

lemma handleEvents_no_response:
  "SendTextResponse c t \<notin> set (snd (handleEvents parses startIdx batch s))"
  by (auto simp: handleEvents_def Let_def eventEffects_def processEvent_def split: if_splits)

lemma updateRootViewportSize_no_response:
  "SendTextResponse c t \<notin> set (snd (updateRootViewportSize g w h s))"
  by (auto simp: updateRootViewportSize_def Let_def)

lemma handleImage_accept:
  assumes "mainIdx = curMainIdx s" "curImgIdx s < imgIdx"
  shows "\<exists>s' es. handleImage g parses now mainIdx imgIdx immediate width height startEventIdx batch s =
       Inr (s', es @ [if immediate \<noteq> 0 then SendCompressedImageNow else SendCompressedImageWait]) \<and>
     curImgIdx s' = imgIdx \<and> (\<forall>c t. SendTextResponse c t \<notin> set es)"
proof -
  let ?r2 = "handleEvents parses startEventIdx batch (updateInactivityTimeout now False s)"
  let ?r4 = "updateRootViewportSize g width height ((fst ?r2)\<lparr>curImgIdx := imgIdx\<rparr>)"
  have "\<not> (mainIdx \<noteq> curMainIdx s \<or> imgIdx \<le> curImgIdx s)" using assms by auto
  hence e: "handleImage g parses now mainIdx imgIdx immediate width height startEventIdx batch s =
       Inr (fst ?r4, (snd ?r2 @ snd ?r4) @
            [if immediate \<noteq> 0 then SendCompressedImageNow else SendCompressedImageWait])"
    by (simp add: handleImage_def Let_def)
  have i: "curImgIdx (fst ?r4) = imgIdx" by (simp add: updateRootViewportSize_def Let_def)
  have n: "\<forall>c t. SendTextResponse c t \<notin> set (snd ?r2 @ snd ?r4)"
    using handleEvents_no_response updateRootViewportSize_no_response by simp
  show ?thesis using e i n by blast
qed

lemma handleImage_reject:
  "\<not> (mainIdx = curMainIdx s \<and> curImgIdx s < imgIdx) \<Longrightarrow>
   handleImage g parses now mainIdx imgIdx immediate width height startEventIdx batch s =
     Inr (s, [outdatedRequest])"
  by (auto simp: handleImage_def)

text \<open>
  A stale image poll (\<open>imgIdx = 0\<close> against \<open>curImgIdx_ = 0\<close>) that arrives two seconds
  after the session was constructed is answered with the 400 rejection, and it has
  changed the session: the security status was refreshed and
  \<open>lastSecurityStatusUpdateTime_\<close> moved from 0 to the time of the request.
\<close>

theorem C1_counterexample:
  "handleHTTPRequest exampleConsts (\<lambda>t. True) 2000000000
     (GET (ImagePath (Some 0) (Some 0) (Some 1) (Some 800) (Some 600) (Some 0) []))
     (Session_new exampleConsts 0 1 False) =
   Inr ((Session_new exampleConsts 0 1 False)\<lparr>lastSecurityStatusUpdateTime := 2000000000\<rparr>,
        [SetSecurityStatus, SendTextResponse 400 ''ERROR: Outdated request'']) \<and>
   lastSecurityStatusUpdateTime (Session_new exampleConsts 0 1 False) = 0"
  by (simp add: eval_defs)

text \<open>
  C1 (amended). For every image poll handled by a session that is Pending or Open, the
  request is accepted if and only if its \<open>mainIdx\<close> equals the current \<open>mainIdx\<close> and its
  \<open>imgIdx\<close> is strictly greater than the last accepted \<open>imgIdx\<close>. An accepted poll is handed
  to the compressor and sets \<open>curImgIdx_\<close>; every other poll is answered with the 400
  "Outdated request" rejection and leaves the session as the periodic security-status
  refresh left it: when at least a second has passed since the last refresh,
  \<open>lastSecurityStatusUpdateTime_\<close> is set to the time of the request, and nothing else
  (counters, viewport, event expectation, timers) changes.
\<close>

theorem C1_image_poll:
  assumes "state s = Pending \<or> state s = Open"
      and "r = handleHTTPRequest g parses now
                 (GET (ImagePath (Some mainIdx) (Some imgIdx) (Some immediate) (Some width)
                         (Some height) (Some startEventIdx) batch)) s"
  shows "(imageAccepted r \<longleftrightarrow> mainIdx = curMainIdx s \<and> curImgIdx s < imgIdx) \<and>
         (mainIdx = curMainIdx s \<and> curImgIdx s < imgIdx \<longrightarrow>
            (\<exists>s' es. r = Inr (s', es @ [if immediate \<noteq> 0 then SendCompressedImageNow
                                         else SendCompressedImageWait]) \<and>
               curImgIdx s' = imgIdx \<and> (\<forall>c t. SendTextResponse c t \<notin> set es))) \<and>
         (\<not> (mainIdx = curMainIdx s \<and> curImgIdx s < imgIdx) \<longrightarrow>
            r = Inr (fst (refreshSecurityStatus now s),
                     snd (refreshSecurityStatus now s) @ [outdatedRequest])) \<and>
         (refreshSecurityStatus now s =
            (if 1000 \<le> duration_ms (now - lastSecurityStatusUpdateTime s)
             then (s\<lparr>lastSecurityStatusUpdateTime := now\<rparr>, [SetSecurityStatus]) else (s, [])))"
proof -
  let ?s0 = "fst (refreshSecurityStatus now s)" and ?e0 = "snd (refreshSecurityStatus now s)"
  let ?h = "handleImage g parses now mainIdx imgIdx immediate width height startEventIdx batch ?s0"
  have r: "r = emit ?e0 ?h" using assms by (simp add: handleHTTPRequest_live)
  have e0: "set ?e0 \<subseteq> {SetSecurityStatus}" by (rule refresh_effects)
  have acc: "\<exists>s' es. r = Inr (s', es @ [if immediate \<noteq> 0 then SendCompressedImageNow
                                         else SendCompressedImageWait]) \<and>
               curImgIdx s' = imgIdx \<and> (\<forall>c t. SendTextResponse c t \<notin> set es)"
    if ok: "mainIdx = curMainIdx s \<and> curImgIdx s < imgIdx"
  proof -
    from handleImage_accept[of mainIdx ?s0 imgIdx g parses now immediate width height startEventIdx batch] ok
    obtain s' es where h: "?h = Inr (s', es @ [if immediate \<noteq> 0 then SendCompressedImageNow
                                         else SendCompressedImageWait])"
      and i: "curImgIdx s' = imgIdx" and n: "\<forall>c t. SendTextResponse c t \<notin> set es" by auto
    have "r = Inr (s', (?e0 @ es) @ [if immediate \<noteq> 0 then SendCompressedImageNow
                                         else SendCompressedImageWait])"
      using r h by (simp add: emit_def)
    moreover have "\<forall>c t. SendTextResponse c t \<notin> set (?e0 @ es)" using n e0 by auto
    ultimately show ?thesis using i by blast
  qed
  have rej: "r = Inr (?s0, ?e0 @ [outdatedRequest])"
    if no: "\<not> (mainIdx = curMainIdx s \<and> curImgIdx s < imgIdx)"
    using r handleImage_reject[of mainIdx ?s0 imgIdx] no by (simp add: emit_def)
  have a1: "imageAccepted r" if ok: "mainIdx = curMainIdx s \<and> curImgIdx s < imgIdx"
    using acc[OF ok] by (auto simp: imageAccepted_def)
  have a2: "\<not> imageAccepted r" if no: "\<not> (mainIdx = curMainIdx s \<and> curImgIdx s < imgIdx)"
    using rej[OF no] e0 by (auto simp: imageAccepted_def outdatedRequest_def)
  have f: "refreshSecurityStatus now s =
            (if 1000 \<le> duration_ms (now - lastSecurityStatusUpdateTime s)
             then (s\<lparr>lastSecurityStatusUpdateTime := now\<rparr>, [SetSecurityStatus]) else (s, []))"
    by (simp add: refreshSecurityStatus_def updateSecurityStatus_def)
  show ?thesis using acc rej a1 a2 f by blast
qed

theorem C1_witness:
  "handleHTTPRequest exampleConsts (\<lambda>t. True) 500000000
     (GET (ImagePath (Some 0) (Some 0) (Some 1) (Some 800) (Some 600) (Some 0) ''A/''))
     (Session_new exampleConsts 0 1 False) =
   Inr (Session_new exampleConsts 0 1 False, [SendTextResponse 400 ''ERROR: Outdated request'']) \<and>
   imageAccepted (handleHTTPRequest exampleConsts (\<lambda>t. True) 500000000
     (GET (ImagePath (Some 0) (Some 1) (Some 1) (Some 800) (Some 600) (Some 0) ''A/''))
     (Session_new exampleConsts 0 1 False))"
proof -
  let ?s = "Session_new exampleConsts 0 1 False"
  have live: "state ?s = Pending \<or> state ?s = Open" by (simp add: Session_new_def)
  have rf: "refreshSecurityStatus 500000000 ?s = (?s, [])"
    by (simp add: refreshSecurityStatus_def duration_ms_def Session_new_def)
  have stale: "\<not> ((0::uint64) = curMainIdx ?s \<and> curImgIdx ?s < 0)" by simp
  have fresh: "(0::uint64) = curMainIdx ?s \<and> curImgIdx ?s < 1" by (simp add: Session_new_def)
  note t0 = C1_image_poll[OF live refl, of exampleConsts "\<lambda>t. True" 500000000 0 0 1 800 600 0 "''A/''"]
  note t1 = C1_image_poll[OF live refl, of exampleConsts "\<lambda>t. True" 500000000 0 1 1 800 600 0 "''A/''"]
  have a: "handleHTTPRequest exampleConsts (\<lambda>t. True) 500000000
     (GET (ImagePath (Some 0) (Some 0) (Some 1) (Some 800) (Some 600) (Some 0) ''A/'')) ?s =
     Inr (?s, [SendTextResponse 400 ''ERROR: Outdated request''])"
    using t0[THEN conjunct2, THEN conjunct2, THEN conjunct1] stale rf
    by (simp add: outdatedRequest_def)
  have b: "imageAccepted (handleHTTPRequest exampleConsts (\<lambda>t. True) 500000000
     (GET (ImagePath (Some 0) (Some 1) (Some 1) (Some 800) (Some 600) (Some 0) ''A/'')) ?s)"
    using t1[THEN conjunct1] fresh by blast
  show ?thesis using a b by blast
qed

section \<open>The inactivity timeout\<close>

lemma sameTimers_refl [simp]: "sameTimers s s"
  by (simp add: sameTimers_def)

lemma sameTimers_refresh [simp]: "sameTimers s (fst (refreshSecurityStatus now s))"
  by (simp add: sameTimers_def)

lemma rearm_long:
  "state s = Pending \<or> state s = Open \<Longrightarrow>
   longTimerRearmed now s (updateInactivityTimeout now False s)"
  by (auto simp: longTimerRearmed_def updateInactivityTimeout_def Let_def Timeout_set_def
        Timeout_clear_def)

lemma arm_short:
  "state s = Pending \<or> state s = Open \<Longrightarrow>
   shortTimerArmed now s (updateInactivityTimeout now True s)"
  by (auto simp: shortTimerArmed_def updateInactivityTimeout_def Let_def Timeout_set_def
        Timeout_clear_def)

lemma rearmed_transfer:
  "longTimerRearmed now s0 s1 \<Longrightarrow> sameTimers s1 s' \<Longrightarrow> sameTimers s s0 \<Longrightarrow>
   longTimerRearmed now s s'"
  by (simp add: longTimerRearmed_def sameTimers_def)

lemma handleImage_timers:
  "mainIdx = curMainIdx s \<Longrightarrow> curImgIdx s < imgIdx \<Longrightarrow>
   \<exists>s' es. handleImage g parses now mainIdx imgIdx immediate width height startEventIdx batch s =
             Inr (s', es) \<and> sameTimers (updateInactivityTimeout now False s) s'"
  by (auto simp: handleImage_def Let_def sameTimers_def updateRootViewportSize_def handleEvents_def)

lemma handleMain_timers:
  "\<exists>s' es. handleMain now s = Inr (s', es) \<and> sameTimers (updateInactivityTimeout now False s) s'"
  by (auto simp: handleMain_def Let_def sameTimers_def navigate_def andThen_def)

lemma handlePrev_timers:
  "\<exists>s' es. handlePrev now s = Inr (s', es) \<and> sameTimers (updateInactivityTimeout now False s) s'"
  by (auto simp: handlePrev_def Let_def sameTimers_def navigate_def andThen_def)

lemma handleNext_timers:
  "\<exists>s' es. handleNext now s = Inr (s', es) \<and> sameTimers (updateInactivityTimeout now False s) s'"
  by (auto simp: handleNext_def Let_def sameTimers_def navigate_def andThen_def)

lemma runIframe_timers: "runIframe now iframe s = Inr (s', es) \<Longrightarrow> sameTimers s s'"
  by (cases iframe) (auto simp: Let_def sameTimers_def split: if_splits)

lemma handleIframe_timers:
  "mainIdx = curMainIdx s \<Longrightarrow> iframeQueue s \<noteq> [] \<Longrightarrow>
   handleIframe g now mainIdx s = Inr (s', es) \<Longrightarrow>
   sameTimers (updateInactivityTimeout now False s) s'"
  by (auto simp: handleIframe_def Let_def sameTimers_def split: list.splits if_splits
        elim!: andThen_InrE dest!: setWidthSignal_shape runIframe_timers)

lemma live_refresh:
  "state s = Pending \<or> state s = Open \<Longrightarrow>
   state (fst (refreshSecurityStatus now s)) = Pending \<or> state (fst (refreshSecurityStatus now s)) = Open"
  by simp

lemma emit_Inr: "emit es0 (Inr (s', es)) = Inr (s', es0 @ es)"
  by (simp add: emit_def)

text \<open>
  A session created at time 0 has its long timer armed for 30 s. An iframe poll at 5 s
  that finds the queue empty is answered "OK" and the deadline is still 30 s. With a
  completed download, the iframe poll at 1 s delivers the download page and rearms the
  timer for 31 s; the download fetch at 5 s serves the file and the deadline is still 31 s.
\<close>

theorem C6_counterexample:
  "map_sum id (\<lambda>r. (deadline (inactivityTimeoutLong (fst r)), snd r))
     (Session_create exampleConsts 0 1 False True) =
     Inr (Some 30000000000, [WidgetSetViewport 800 600]) \<and>
   map_sum id (\<lambda>r. (deadline (inactivityTimeoutLong (fst r)), snd r))
     (andThen (Session_create exampleConsts 0 1 False True)
        (handleHTTPRequest exampleConsts (\<lambda>t. True) 5000000000 (GET (IframePath (Some 0))))) =
     Inr (Some 30000000000,
          [WidgetSetViewport 800 600, SetSecurityStatus, SendTextResponse 200 ''OK'']) \<and>
   map_sum id (\<lambda>r. (deadline (inactivityTimeoutLong (fst r)), last (snd r)))
     (andThen (Session_create exampleConsts 0 1 False True)
        (run exampleConsts (\<lambda>t. True)
           [OpOnDownloadCompleted ''f'',
            OpHandleHTTPRequest 1000000000 (GET (IframePath (Some 0)))])) =
     Inr (Some 31000000000, SendHTMLResponse 200 (DownloadIframeHTML 1 1 ''f'')) \<and>
  map_sum id (\<lambda>r. (deadline (inactivityTimeoutLong (fst r)), last (snd r)))
     (andThen (Session_create exampleConsts 0 1 False True)
        (run exampleConsts (\<lambda>t. True)
           [OpOnDownloadCompleted ''f'',
            OpHandleHTTPRequest 1000000000 (GET (IframePath (Some 0))),
            OpHandleHTTPRequest 5000000000 (GET (DownloadPath (Some 1)))])) =
     Inr (Some 31000000000, ServeDownload ''f'')"
  by (simp add: eval_defs eval_more)

text \<open>
  C6 (amended). On a session that is Pending or Open, an accepted image poll, a main,
  prev or next page request and an iframe poll that delivers a queued sub-page rearm the
  long inactivity timer and leave the short one idle. An iframe poll answered "OK" on an
  empty queue and a download fetch are answered without touching either timer. The
  close endpoint arms the short timer and leaves the long one idle.
\<close>

theorem C6_long_timer:
  assumes "state s = Pending \<or> state s = Open"
  shows "(mainIdx = curMainIdx s \<and> curImgIdx s < imgIdx \<longrightarrow>
            (\<exists>s' es. handleHTTPRequest g parses now
                        (GET (ImagePath (Some mainIdx) (Some imgIdx) (Some immediate) (Some width)
                                (Some height) (Some startEventIdx) batch)) s = Inr (s', es) \<and>
                      longTimerRearmed now s s')) \<and>
         (p = MainPath \<or> p = PrevPath \<or> p = NextPath \<longrightarrow>
            (\<exists>s' es. handleHTTPRequest g parses now (GET p) s = Inr (s', es) \<and>
                      longTimerRearmed now s s')) \<and>
         (mainIdx = curMainIdx s \<and> iframeQueue s \<noteq> [] \<and>
          handleHTTPRequest g parses now (GET (IframePath (Some mainIdx))) s = Inr (s1, es1) \<longrightarrow>
            longTimerRearmed now s s1) \<and>
         (mainIdx = curMainIdx s \<and> iframeQueue s = [] \<longrightarrow>
            handleHTTPRequest g parses now (GET (IframePath (Some mainIdx))) s =
              Inr (fst (refreshSecurityStatus now s),
                   snd (refreshSecurityStatus now s) @ [SendTextResponse 200 ''OK''])) \<and>
         (downloads s downloadIdx = Some entry \<longrightarrow>
            handleHTTPRequest g parses now (GET (DownloadPath (Some downloadIdx))) s =
              Inr (fst (refreshSecurityStatus now s),
                   snd (refreshSecurityStatus now s) @ [ServeDownload (fst entry)])) \<and>
         sameTimers s (fst (refreshSecurityStatus now s)) \<and>
         (mainIdx = curMainIdx s \<longrightarrow>
            (\<exists>s'. handleHTTPRequest g parses now (GET (ClosePath (Some mainIdx))) s =
                    Inr (s', snd (refreshSecurityStatus now s) @ [SendTextResponse 200 ''OK'']) \<and>
                  shortTimerArmed now s s'))"
proof -
  let ?s0 = "fst (refreshSecurityStatus now s)" and ?e0 = "snd (refreshSecurityStatus now s)"
  note live0 = live_refresh[OF assms, of now]
  note H = handleHTTPRequest_live[OF assms, of g parses now]
  have long0: "longTimerRearmed now s s'" if "sameTimers (updateInactivityTimeout now False ?s0) s'" for s'
    using rearmed_transfer[OF rearm_long[OF live0] that] by simp
  have img: "\<exists>s' es. handleHTTPRequest g parses now
                        (GET (ImagePath (Some mainIdx) (Some imgIdx) (Some immediate) (Some width)
                                (Some height) (Some startEventIdx) batch)) s = Inr (s', es) \<and>
                      longTimerRearmed now s s'"
    if "mainIdx = curMainIdx s \<and> curImgIdx s < imgIdx"
  proof -
    from handleImage_timers[of mainIdx ?s0 imgIdx g parses now immediate width height startEventIdx batch] that
    obtain s' es where "handleImage g parses now mainIdx imgIdx immediate width height startEventIdx batch ?s0 = Inr (s', es)"
      "sameTimers (updateInactivityTimeout now False ?s0) s'" by auto
    thus ?thesis using long0 by (auto simp: H emit_Inr)
  qed
  have pages: "\<exists>s' es. handleHTTPRequest g parses now (GET p) s = Inr (s', es) \<and> longTimerRearmed now s s'"
    if "p = MainPath \<or> p = PrevPath \<or> p = NextPath"
  proof -
    from that handleMain_timers[of now ?s0] handlePrev_timers[of now ?s0] handleNext_timers[of now ?s0]
    obtain s' es where "dispatch g parses now p ?s0 = Inr (s', es)"
      "sameTimers (updateInactivityTimeout now False ?s0) s'" by auto
    thus ?thesis using long0 by (auto simp: H emit_Inr)
  qed
  have ifr: "longTimerRearmed now s s1"
    if "mainIdx = curMainIdx s \<and> iframeQueue s \<noteq> [] \<and>
        handleHTTPRequest g parses now (GET (IframePath (Some mainIdx))) s = Inr (s1, es1)"
  proof -
    from that obtain es' where "handleIframe g now mainIdx ?s0 = Inr (s1, es')"
      by (auto simp: H elim!: emit_InrE)
    from handleIframe_timers[OF _ _ this] that show ?thesis using long0 by simp
  qed
  have ok: "handleHTTPRequest g parses now (GET (IframePath (Some mainIdx))) s =
              Inr (?s0, ?e0 @ [SendTextResponse 200 ''OK''])"
    if "mainIdx = curMainIdx s \<and> iframeQueue s = []"
    using that by (simp add: H handleIframe_def emit_Inr)
  have dl: "handleHTTPRequest g parses now (GET (DownloadPath (Some downloadIdx))) s =
              Inr (?s0, ?e0 @ [ServeDownload (fst entry)])"
    if "downloads s downloadIdx = Some entry"
    using that by (simp add: H handleDownload_def emit_Inr)
  have cl: "\<exists>s'. handleHTTPRequest g parses now (GET (ClosePath (Some mainIdx))) s =
                    Inr (s', ?e0 @ [SendTextResponse 200 ''OK'']) \<and> shortTimerArmed now s s'"
    if "mainIdx = curMainIdx s"
  proof -
    let ?s1 = "?s0\<lparr>curMainIdx := curMainIdx ?s0 + 1, curImgIdx := 0, curEventIdx := 0\<rparr>"
    have "state ?s1 = Pending \<or> state ?s1 = Open" using live0 by simp
    from arm_short[OF this, of now]
    have "shortTimerArmed now s (updateInactivityTimeout now True ?s1)"
      by (simp add: shortTimerArmed_def)
    thus ?thesis using that by (simp add: H handleClose_def emit_Inr)
  qed
  show ?thesis using img pages ifr ok dl cl sameTimers_refresh[of s now] by blast
qed

theorem C6_witness:
  "\<exists>s' es. handleHTTPRequest exampleConsts (\<lambda>t. True) 500000000 (GET MainPath)
              (Session_new exampleConsts 0 1 False) = Inr (s', es) \<and>
           deadline (inactivityTimeoutLong s') = Some 30500000000 \<and>
           deadline (inactivityTimeoutShort s') = None"
proof -
  let ?s = "Session_new exampleConsts 0 1 False"
  have live: "state ?s = Pending \<or> state ?s = Open" by (simp add: Session_new_def)
  have d: "delayMs (inactivityTimeoutLong ?s) = 30000"
    by (simp add: Session_new_def Timeout_create_def)
  from C6_long_timer[OF live, THEN conjunct2, THEN conjunct1, of MainPath exampleConsts "\<lambda>t. True" 500000000]
  obtain s' es where
    "handleHTTPRequest exampleConsts (\<lambda>t. True) 500000000 (GET MainPath) ?s = Inr (s', es)"
    "longTimerRearmed 500000000 ?s s'" by auto
  thus ?thesis unfolding longTimerRearmed_def d by auto
qed

section \<open>The download ledger\<close>

lemma runIframe_downloads_kept:
  "runIframe now iframe s = Inr (s', es) \<Longrightarrow> downloads s idx = Some e \<Longrightarrow> downloads s' idx = Some e"
  by (cases iframe; cases e) (auto simp: Let_def split: if_splits)

lemma handleIframe_downloads_kept:
  "handleIframe g now mainIdx s = Inr (s', es) \<Longrightarrow> downloads s idx = Some e \<Longrightarrow>
   downloads s' idx = Some e"
  by (auto simp: handleIframe_def Let_def updateInactivityTimeout_def split: if_splits list.splits
        elim!: andThen_InrE dest!: setWidthSignal_shape)
     (auto dest: runIframe_downloads_kept)

lemma handleImage_downloads:
  "handleImage g parses now mainIdx imgIdx immediate width height startEventIdx batch s = Inr (s', es)
   \<Longrightarrow> downloads s' = downloads s"
  by (auto simp: handleImage_def Let_def updateInactivityTimeout_def updateRootViewportSize_def
        handleEvents_def split: if_splits)

lemma handleDownload_downloads: "handleDownload downloadIdx s = Inr (s', es) \<Longrightarrow> downloads s' = downloads s"
  by (auto simp: handleDownload_def split: option.splits)

lemma handleClose_downloads: "handleClose now mainIdx s = Inr (s', es) \<Longrightarrow> downloads s' = downloads s"
  by (auto simp: handleClose_def updateInactivityTimeout_def Let_def split: if_splits)

lemma handleMain_downloads: "handleMain now s = Inr (s', es) \<Longrightarrow> downloads s' = downloads s"
  by (auto simp: handleMain_def Let_def updateInactivityTimeout_def split: if_splits
        elim!: andThen_InrE dest!: navigate_shape)

lemma handlePrev_downloads: "handlePrev now s = Inr (s', es) \<Longrightarrow> downloads s' = downloads s"
  by (auto simp: handlePrev_def Let_def updateInactivityTimeout_def split: if_splits
        elim!: andThen_InrE dest!: navigate_shape)

lemma handleNext_downloads: "handleNext now s = Inr (s', es) \<Longrightarrow> downloads s' = downloads s"
  by (auto simp: handleNext_def Let_def updateInactivityTimeout_def split: if_splits
        elim!: andThen_InrE dest!: navigate_shape)

lemma dispatch_downloads_kept:
  "dispatch g parses now p s = Inr (s', es) \<Longrightarrow> downloads s idx = Some e \<Longrightarrow>
   downloads s' idx = Some e"
  by (induction g parses now p s rule: dispatch.induct)
     (auto dest: handleImage_downloads handleIframe_downloads_kept handleDownload_downloads
        handleClose_downloads handleMain_downloads handlePrev_downloads handleNext_downloads)

lemma handleHTTPRequest_downloads_kept:
  "handleHTTPRequest g parses now request s = Inr (s', es) \<Longrightarrow> downloads s idx = Some e \<Longrightarrow>
   downloads s' idx = Some e"
  by (auto simp: handleHTTPRequest_def Let_def split: if_splits elim!: emit_InrE
        dest: dispatch_downloads_kept[where idx = idx and e = e])

lemma step_downloads_kept:
  assumes "step g parses op s = Inr (s', es)" and "downloads s idx = Some e"
  shows "downloads s' idx = Some e \<or>
         (downloads s' idx = None \<and>
          (\<exists>t d. op = OpDownloadTimeoutFired t idx \<and> deadline (snd e) = Some d \<and> d \<le> t))"
proof (cases op)
  case (OpHandleHTTPRequest now request)
  then show ?thesis using assms handleHTTPRequest_downloads_kept by auto
next
  case OpClose
  then show ?thesis using assms by (auto simp: close_def split: if_splits)
next
  case OpOnAfterCreated
  then show ?thesis using assms
    by (auto simp: OnAfterCreated_def close_def emit_def Let_def split: if_splits)
next
  case (OpOnBeforeClose now)
  then show ?thesis using assms
    by (auto simp: OnBeforeClose_def updateInactivityTimeout_def Let_def split: if_splits)
next
  case (OpInactivityTimeoutFired now shortened)
  then show ?thesis using assms
    by (auto simp: inactivityTimeoutFired_def close_def Let_def split: if_splits option.splits)
next
  case (OpDownloadTimeoutFired now i)
  then show ?thesis using assms
    by (auto simp: downloadTimeoutFired_def split: if_splits option.splits)
next
  case (OpOnDownloadCompleted dl)
  then show ?thesis using assms by (auto simp: onDownloadCompleted_def dest!: addIframe_shape)
next
  case OpOnClipboardButtonPressed
  then show ?thesis using assms by (auto simp: onClipboardButtonPressed_def dest!: addIframe_shape)
next
  case (OpOnBeforePopup alive full sid)
  then show ?thesis using assms
    by (auto simp: OnBeforePopup_def split: if_splits dest!: addIframe_shape)
next
  case (OpOnWidgetCursorChanged cursor)
  then show ?thesis using assms
    by (auto simp: onWidgetCursorChanged_def split: if_splits dest!: setHeightSignal_shape)
next
  case OpViewDirty
  then show ?thesis using assms by (auto dest!: sendViewportToCompressor_same)
next
  case (OpOnPreKeyEvent now shift)
  then show ?thesis using assms by (auto simp: OnPreKeyEvent_def dest!: navigate_shape)
next
  case (OpRefreshHotkey now)
  then show ?thesis using assms by (auto simp: onRefreshHotkey_def dest!: navigate_shape)
qed

lemma run_downloads_kept:
  "run g parses ops s = Inr (s', es) \<Longrightarrow> downloads s idx = Some e \<Longrightarrow>
   (\<forall>t. OpDownloadTimeoutFired t idx \<notin> set ops) \<Longrightarrow> downloads s' idx = Some e"
proof (induction ops arbitrary: s es)
  case Nil
  then show ?case by simp
next
  case (Cons op ops)
  from Cons.prems(1) obtain s1 es1 es2 where
    st: "step g parses op s = Inr (s1, es1)" and rn: "run g parses ops s1 = Inr (s', es2)"
    by (auto elim: andThen_InrE)
  have "downloads s1 idx = Some e"
    using step_downloads_kept[OF st Cons.prems(2)] Cons.prems(3) by auto
  then show ?case using Cons.IH[OF rn] Cons.prems(3) by simp
qed

lemma runIframe_downloads_new:
  "runIframe now iframe s = Inr (s', es) \<Longrightarrow> downloads s idx = None \<Longrightarrow> downloads s' idx \<noteq> None \<Longrightarrow>
   idx = curDownloadIdx s + 1 \<and> curDownloadIdx s' = idx"
  by (cases iframe) (auto simp: Let_def split: if_splits)

lemma handleIframe_downloads_new:
  "handleIframe g now mainIdx s = Inr (s', es) \<Longrightarrow> downloads s idx = None \<Longrightarrow>
   downloads s' idx \<noteq> None \<Longrightarrow> idx = curDownloadIdx s + 1 \<and> curDownloadIdx s' = idx"
  by (auto simp: handleIframe_def Let_def updateInactivityTimeout_def split: if_splits list.splits
        elim!: andThen_InrE dest!: setWidthSignal_shape)
     (auto dest: runIframe_downloads_new)

lemma dispatch_downloads_new:
  "dispatch g parses now p s = Inr (s', es) \<Longrightarrow> downloads s idx = None \<Longrightarrow>
   downloads s' idx \<noteq> None \<Longrightarrow> idx = curDownloadIdx s + 1 \<and> curDownloadIdx s' = idx"
  by (induction g parses now p s rule: dispatch.induct)
     (auto dest: handleImage_downloads handleIframe_downloads_new handleDownload_downloads
        handleClose_downloads handleMain_downloads handlePrev_downloads handleNext_downloads)

lemma handleHTTPRequest_downloads_new:
  assumes "handleHTTPRequest g parses now request s = Inr (s', es)" "downloads s idx = None"
    "downloads s' idx \<noteq> None"
  shows "idx = curDownloadIdx s + 1 \<and> curDownloadIdx s' = idx"
proof -
  let ?s0 = "fst (refreshSecurityStatus now s)"
  have f: "downloads ?s0 = downloads s" "curDownloadIdx ?s0 = curDownloadIdx s"
    by (simp_all add: refreshSecurityStatus_def updateSecurityStatus_def)
  have "s' = s \<or> s' = ?s0 \<or> (\<exists>es'. dispatch g parses now (reqPath request) ?s0 = Inr (s', es'))"
    using assms(1)
    by (auto simp: handleHTTPRequest_def Let_def split: if_splits elim!: emit_InrE)
  thus ?thesis using assms(2,3) f dispatch_downloads_new[of g parses now "reqPath request" ?s0 s' _ idx]
    by auto
qed

lemma step_downloads_new:
  assumes "step g parses op s = Inr (s', es)" and "downloads s idx = None"
      and "downloads s' idx \<noteq> None"
  shows "idx = curDownloadIdx s + 1 \<and> curDownloadIdx s' = idx"
proof (cases op)
  case (OpHandleHTTPRequest now request)
  then show ?thesis using assms handleHTTPRequest_downloads_new by auto
next
  case OpClose
  then show ?thesis using assms by (auto simp: close_def split: if_splits)
next
  case OpOnAfterCreated
  then show ?thesis using assms
    by (auto simp: OnAfterCreated_def close_def emit_def Let_def split: if_splits)
next
  case (OpOnBeforeClose now)
  then show ?thesis using assms
    by (auto simp: OnBeforeClose_def updateInactivityTimeout_def Let_def split: if_splits)
next
  case (OpInactivityTimeoutFired now shortened)
  then show ?thesis using assms
    by (auto simp: inactivityTimeoutFired_def close_def Let_def split: if_splits option.splits)
next
  case (OpDownloadTimeoutFired now i)
  then show ?thesis using assms
    by (auto simp: downloadTimeoutFired_def split: if_splits option.splits)
next
  case (OpOnDownloadCompleted dl)
  then show ?thesis using assms by (auto simp: onDownloadCompleted_def dest!: addIframe_shape)
next
  case OpOnClipboardButtonPressed
  then show ?thesis using assms by (auto simp: onClipboardButtonPressed_def dest!: addIframe_shape)
next
  case (OpOnBeforePopup alive full sid)
  then show ?thesis using assms
    by (auto simp: OnBeforePopup_def split: if_splits dest!: addIframe_shape)
next
  case (OpOnWidgetCursorChanged cursor)
  then show ?thesis using assms
    by (auto simp: onWidgetCursorChanged_def split: if_splits dest!: setHeightSignal_shape)
next
  case OpViewDirty
  then show ?thesis using assms by (auto dest!: sendViewportToCompressor_same)
next
  case (OpOnPreKeyEvent now shift)
  then show ?thesis using assms by (auto simp: OnPreKeyEvent_def dest!: navigate_shape)
next
  case (OpRefreshHotkey now)
  then show ?thesis using assms by (auto simp: onRefreshHotkey_def dest!: navigate_shape)
qed

lemma closed_503:
  "state s = Closing \<or> state s = Closed \<Longrightarrow>
   handleHTTPRequest g parses t request s =
     Inr (s, [SendTextResponse 503 ''ERROR: Browser session has been closed''])"
  by (auto simp: handleHTTPRequest_def)

text \<open>
  The close endpoint arms the 4 s timer; when it fires the session is Closing. A download
  request after that is answered 503, for the entry that is still in the ledger (its
  deadline is at 11 s, the request at 7 s) as for an index that was never issued.
\<close>

theorem C7_counterexample:
  "map_sum id (\<lambda>r. (state (fst r), downloads (fst r) 1, last (snd r)))
     (andThen (Session_create exampleConsts 0 1 False True)
        (run exampleConsts (\<lambda>t. True)
           [OpOnAfterCreated,
            OpOnDownloadCompleted ''f'',
            OpHandleHTTPRequest 1000000000 (GET (IframePath (Some 0))),
            OpHandleHTTPRequest 2000000000 (GET (ClosePath (Some 0))),
            OpInactivityTimeoutFired 6000000000 True,
            OpHandleHTTPRequest 7000000000 (GET (DownloadPath (Some 1)))])) =
     Inr (Closing, Some (''f'', \<lparr>delayMs = 10000, deadline = Some 11000000000\<rparr>),
          SendTextResponse 503 ''ERROR: Browser session has been closed'') \<and>
   map_sum id (\<lambda>r. (state (fst r), downloads (fst r) 5, last (snd r)))
     (andThen (Session_create exampleConsts 0 1 False True)
        (run exampleConsts (\<lambda>t. True)
           [OpOnAfterCreated,
            OpHandleHTTPRequest 2000000000 (GET (ClosePath (Some 0))),
            OpInactivityTimeoutFired 6000000000 True,
            OpHandleHTTPRequest 7000000000 (GET (DownloadPath (Some 5)))])) =
     Inr (Closing, None, SendTextResponse 503 ''ERROR: Browser session has been closed'')"
  by (simp add: eval_defs eval_more OnAfterCreated_def inactivityTimeoutFired_def)

text \<open>
  C7 (amended). The download page producer stores the file under the next \<open>downloadIdx\<close> with a
  timer armed for 10 s after its creation. No operation changes a stored entry or its
  deadline: serving it through the download endpoint, like every other operation, leaves
  it as it is, and only the entry's own timer, firing at or after the deadline, removes
  it, however often it was served. The ledger starts empty and an index enters it only
  when it is issued, as the next \<open>downloadIdx\<close>. On a session that is Pending or Open, a download
  request for an index that is not in the ledger (removed or never issued) is answered
  with the 400 "Outdated download index" rejection, and a request for a stored index
  serves the file. A session that is Closing or Closed answers every request with the
  503 "Browser session has been closed" rejection and changes nothing.
\<close>

theorem C7_download_lifetime:
  "(runIframe now (DownloadIframe file) s = Inr (s1, es1) \<longrightarrow>
      curDownloadIdx s1 = curDownloadIdx s + 1 \<and>
      downloads s1 (curDownloadIdx s + 1) =
        Some (file, \<lparr>delayMs = 10000, deadline = Some (now + 10000 * 1000000)\<rparr>)) \<and>
   (step g parses op s = Inr (s', es) \<and> downloads s idx = Some e \<longrightarrow>
      downloads s' idx = Some e \<or>
      (downloads s' idx = None \<and>
       (\<exists>t d. op = OpDownloadTimeoutFired t idx \<and> deadline (snd e) = Some d \<and> d \<le> t))) \<and>
   (run g parses ops s = Inr (s2, es2) \<and> downloads s idx = Some e \<and>
    (\<forall>t. OpDownloadTimeoutFired t idx \<notin> set ops) \<longrightarrow>
      downloads s2 idx = Some e) \<and>
   (downloads s idx = Some e \<and> deadline (snd e) = Some d \<longrightarrow>
      downloadTimeoutFired t idx s =
        (if t < d then Inr (s, [])
         else Inr (s\<lparr>downloads := (downloads s)(idx := None)\<rparr>, []))) \<and>
   (state s = Pending \<or> state s = Open \<longrightarrow>
      handleHTTPRequest g parses t (GET (DownloadPath (Some idx))) s =
        Inr (fst (refreshSecurityStatus t s),
             snd (refreshSecurityStatus t s) @
             [case downloads s idx of
                None \<Rightarrow> SendTextResponse 400 ''ERROR: Outdated download index''
              | Some entry \<Rightarrow> ServeDownload (fst entry)]) \<and>
      downloads (fst (refreshSecurityStatus t s)) = downloads s) \<and>
   (step g parses op s = Inr (s', es) \<and> downloads s idx = None \<and> downloads s' idx \<noteq> None \<longrightarrow>
      idx = curDownloadIdx s + 1 \<and> curDownloadIdx s' = idx) \<and>
   downloads (Session_new g now0 sid popup) = Map.empty \<and>
   (state s = Closing \<or> state s = Closed \<longrightarrow>
      handleHTTPRequest g parses t request s =
        Inr (s, [SendTextResponse 503 ''ERROR: Browser session has been closed'']))"
proof -
  have a: "runIframe now (DownloadIframe file) s = Inr (s1, es1) \<longrightarrow>
      curDownloadIdx s1 = curDownloadIdx s + 1 \<and>
      downloads s1 (curDownloadIdx s + 1) =
        Some (file, \<lparr>delayMs = 10000, deadline = Some (now + 10000 * 1000000)\<rparr>)"
    by (auto simp: Let_def Timeout_set_def Timeout_create_def split: if_splits)
  have b: "step g parses op s = Inr (s', es) \<and> downloads s idx = Some e \<longrightarrow>
      downloads s' idx = Some e \<or>
      (downloads s' idx = None \<and>
       (\<exists>t d. op = OpDownloadTimeoutFired t idx \<and> deadline (snd e) = Some d \<and> d \<le> t))"
    using step_downloads_kept by blast
  have c: "run g parses ops s = Inr (s2, es2) \<and> downloads s idx = Some e \<and>
    (\<forall>t. OpDownloadTimeoutFired t idx \<notin> set ops) \<longrightarrow> downloads s2 idx = Some e"
    using run_downloads_kept by blast
  have d: "downloads s idx = Some e \<and> deadline (snd e) = Some d \<longrightarrow>
      downloadTimeoutFired t idx s =
        (if t < d then Inr (s, [])
         else Inr (s\<lparr>downloads := (downloads s)(idx := None)\<rparr>, []))"
    by (auto simp: downloadTimeoutFired_def)
  have e: "state s = Pending \<or> state s = Open \<longrightarrow>
      handleHTTPRequest g parses t (GET (DownloadPath (Some idx))) s =
        Inr (fst (refreshSecurityStatus t s),
             snd (refreshSecurityStatus t s) @
             [case downloads s idx of
                None \<Rightarrow> SendTextResponse 400 ''ERROR: Outdated download index''
              | Some entry \<Rightarrow> ServeDownload (fst entry)]) \<and>
      downloads (fst (refreshSecurityStatus t s)) = downloads s"
    by (auto simp: handleHTTPRequest_live handleDownload_def emit_Inr split: option.splits)
  have f: "step g parses op s = Inr (s', es) \<and> downloads s idx = None \<and> downloads s' idx \<noteq> None \<longrightarrow>
      idx = curDownloadIdx s + 1 \<and> curDownloadIdx s' = idx"
    using step_downloads_new by blast
  have n: "downloads (Session_new g now0 sid popup) = Map.empty"
    by (simp add: Session_new_def)
  have z: "state s = Closing \<or> state s = Closed \<longrightarrow>
      handleHTTPRequest g parses t request s =
        Inr (s, [SendTextResponse 503 ''ERROR: Browser session has been closed''])"
    using closed_503 by blast
  show ?thesis using a b c d e f n z by blast
qed

theorem C7_witness:
  "\<exists>s1 es1.
     andThen (Session_create exampleConsts 0 1 False True)
       (run exampleConsts (\<lambda>t. True)
          [OpOnDownloadCompleted ''f'',
           OpHandleHTTPRequest 1000000000 (GET (IframePath (Some 0)))]) = Inr (s1, es1) \<and>
     downloads s1 1 = Some (''f'', \<lparr>delayMs = 10000, deadline = Some 11000000000\<rparr>) \<and>
     handleHTTPRequest exampleConsts (\<lambda>t. True) 2000000000 (GET (DownloadPath (Some 1))) s1 =
       Inr (fst (refreshSecurityStatus 2000000000 s1),
            snd (refreshSecurityStatus 2000000000 s1) @ [ServeDownload ''f'']) \<and>
     downloads (fst (refreshSecurityStatus 2000000000 s1)) 1 =
       Some (''f'', \<lparr>delayMs = 10000, deadline = Some 11000000000\<rparr>) \<and>
     downloadTimeoutFired 10999999999 1 s1 = Inr (s1, []) \<and>
     downloadTimeoutFired 11000000000 1 s1 = Inr (s1\<lparr>downloads := (downloads s1)(1 := None)\<rparr>, []) \<and>
     handleHTTPRequest exampleConsts (\<lambda>t. True) 11000000001 (GET (DownloadPath (Some 1)))
         (s1\<lparr>downloads := (downloads s1)(1 := None)\<rparr>) =
       Inr (fst (refreshSecurityStatus 11000000001 (s1\<lparr>downloads := (downloads s1)(1 := None)\<rparr>)),
            snd (refreshSecurityStatus 11000000001 (s1\<lparr>downloads := (downloads s1)(1 := None)\<rparr>)) @
            [SendTextResponse 400 ''ERROR: Outdated download index''])"
proof -
  let ?e = "(''f'', \<lparr>delayMs = 10000, deadline = Some (11000000000::int)\<rparr>)"
  have "\<exists>s1 es1.
     andThen (Session_create exampleConsts 0 1 False True)
       (run exampleConsts (\<lambda>t. True)
          [OpOnDownloadCompleted ''f'',
           OpHandleHTTPRequest 1000000000 (GET (IframePath (Some 0)))]) = Inr (s1, es1) \<and>
     downloads s1 1 = Some ?e \<and> state s1 = Pending"
    by (simp add: eval_defs eval_more)
  then obtain s1 es1 where
    r: "andThen (Session_create exampleConsts 0 1 False True)
       (run exampleConsts (\<lambda>t. True)
          [OpOnDownloadCompleted ''f'',
           OpHandleHTTPRequest 1000000000 (GET (IframePath (Some 0)))]) = Inr (s1, es1)"
    and dl: "downloads s1 1 = Some ?e" and live: "state s1 = Pending" by blast
  let ?s2 = "s1\<lparr>downloads := (downloads s1)(1 := None)\<rparr>"
  have dd: "deadline (snd ?e) = Some 11000000000" by simp
  note fire = C7_download_lifetime[of _ _ s1 _ _ _ _ _ _ _ 1 ?e _ _ _ 11000000000,
      THEN conjunct2, THEN conjunct2, THEN conjunct2, THEN conjunct1, rule_format, OF conjI[OF dl dd]]
  note serve = C7_download_lifetime[of _ _ s1 _ _ exampleConsts "\<lambda>t. True" _ _ _ 1,
      THEN conjunct2, THEN conjunct2, THEN conjunct2, THEN conjunct2, THEN conjunct1,
      rule_format]
  note gone = C7_download_lifetime[of _ _ ?s2 _ _ exampleConsts "\<lambda>t. True" _ _ _ 1,
      THEN conjunct2, THEN conjunct2, THEN conjunct2, THEN conjunct2, THEN conjunct1,
      rule_format]
  have s: "handleHTTPRequest exampleConsts (\<lambda>t. True) 2000000000 (GET (DownloadPath (Some 1))) s1 =
       Inr (fst (refreshSecurityStatus 2000000000 s1),
            snd (refreshSecurityStatus 2000000000 s1) @ [ServeDownload ''f''])"
    and k: "downloads (fst (refreshSecurityStatus 2000000000 s1)) 1 = Some ?e"
    using serve[of 2000000000] live dl by simp_all
  have f0: "downloadTimeoutFired 10999999999 1 s1 = Inr (s1, [])"
    using fire[of 10999999999] by simp
  have f1: "downloadTimeoutFired 11000000000 1 s1 = Inr (?s2, [])"
    using fire[of 11000000000] by simp
  have g: "handleHTTPRequest exampleConsts (\<lambda>t. True) 11000000001 (GET (DownloadPath (Some 1))) ?s2 =
       Inr (fst (refreshSecurityStatus 11000000001 ?s2),
            snd (refreshSecurityStatus 11000000001 ?s2) @
            [SendTextResponse 400 ''ERROR: Outdated download index''])"
    using gone[of 11000000001] live by simp
  show ?thesis using r dl s k f0 f1 g by blast
qed

end
